theory Spec2Isabelle
  imports Main
begin

section \<open>The structural map/zip engine of \<^verbatim>\<open>pytools/vectorizations.py\<close>\<close>

text \<open>
  The four decorators \<^verbatim>\<open>vectorize\<close>, \<^verbatim>\<open>vectorize_param\<close>, \<^verbatim>\<open>vectorize_multi\<close> and
  \<^verbatim>\<open>vectorize_multi_param\<close> (the spec's \<^verbatim>\<open>map\<close>, \<^verbatim>\<open>map_with_params\<close>, \<^verbatim>\<open>zip\<close> and
  \<^verbatim>\<open>zip_with_params\<close>) are embedded as recursive functions over a datatype of Python
  values. A call returns the list of observable events it produced (calls of the leaf
  function, errors written by the logger) together with either the exception that leaves
  the call or the value it returns.
\<close>

subsection \<open>Classes and the module's type tables\<close>

datatype numpy_type =
    np_int8 | np_int16 | np_int32 | np_int64
  | np_uint8 | np_uint16 | np_uint32 | np_uint64
  | np_float16 | np_float32 | np_float64
  | np_complex64 | np_complex128
  | np_bool | np_str | np_bytes

datatype pandas_type =
    pd_Int8Dtype | pd_Int16Dtype | pd_Int32Dtype | pd_Int64Dtype
  | pd_UInt8Dtype | pd_UInt16Dtype | pd_UInt32Dtype | pd_UInt64Dtype
  | pd_Float32Dtype | pd_Float64Dtype
  | pd_BooleanDtype | pd_StringDtype

datatype datetime_type =
    dt_datetime | dt_timedelta | dt_time | dt_date | dt_timezone
  | np_datetime64 | pd_Timestamp | pd_Timedelta | pa_TimestampType

datatype py_class =
    T_int | T_float | T_complex | T_str | T_bytes | T_bytearray | T_memoryview | T_bool
  | T_numpy numpy_type
  | T_pandas pandas_type
  | T_datetime datetime_type
  | T_list | T_set | T_tuple | T_dict | T_ndarray | T_DataFrame | T_Series
  | T_NoneType
  | T_object string

definition BASE_TYPES :: "py_class list" where
  "BASE_TYPES = [T_int, T_float, T_complex, T_str, T_bytes, T_bytearray, T_memoryview, T_bool]"

definition NUMPY_TYPES :: "py_class list" where
  "NUMPY_TYPES = map T_numpy
     [np_int8, np_int16, np_int32, np_int64, np_uint8, np_uint16, np_uint32, np_uint64,
      np_float16, np_float32, np_float64, np_complex64, np_complex128, np_bool, np_str,
      np_bytes]"

definition PANDAS_TYPES :: "py_class list" where
  "PANDAS_TYPES = map T_pandas
     [pd_Int8Dtype, pd_Int16Dtype, pd_Int32Dtype, pd_Int64Dtype, pd_UInt8Dtype,
      pd_UInt16Dtype, pd_UInt32Dtype, pd_UInt64Dtype, pd_Float32Dtype, pd_Float64Dtype,
      pd_BooleanDtype, pd_StringDtype]"

definition DATETIME_TYPES :: "py_class list" where
  "DATETIME_TYPES = map T_datetime
     [dt_datetime, dt_timedelta, dt_time, dt_date, dt_timezone, np_datetime64,
      pd_Timestamp, pd_Timedelta, pa_TimestampType]"

definition TYPES :: "py_class list" where
  "TYPES = BASE_TYPES @ NUMPY_TYPES @ PANDAS_TYPES @ DATETIME_TYPES"

definition CONTAINER_TYPES :: "py_class list" where
  "CONTAINER_TYPES = [T_list, T_set, T_tuple, T_dict, T_ndarray, T_DataFrame, T_Series]"

definition ALL_ARGUMENTS :: string where
  "ALL_ARGUMENTS = ''All arguments should have the same shape.''"

subsection \<open>Python values\<close>

text \<open>
  Integers, booleans, strings and the three byte sequences carry their contents. A leaf of
  any other class of \<open>TYPES\<close> (float, complex, the numpy, pandas and datetime classes) and
  an instance of a class that is in neither table are opaque: a class and a number that
  identifies the object. Sets and dictionaries are lists in iteration order; a
  \<open>PSet\<close> and the keys of a \<open>PDict\<close> are free of duplicates when the value is well formed.
  An array is its shape and an identifier for its contents, a frame is its number of rows
  and its columns (label and cells), a series is its entries (index label and value).
  Instances of subclasses of the built-in containers are outside the model.
\<close>

datatype opaque_class =
    O_float | O_complex
  | O_numpy numpy_type | O_pandas pandas_type | O_datetime datetime_type
  | O_object string

datatype pyval =
    PInt int
  | PBool bool
  | PStr string
  | PBytes string
  | PByteArray string
  | PMemoryView string
  | POpaque opaque_class nat
  | PNone
  | PList "pyval list"
  | PTuple "pyval list"
  | PSet "pyval list"
  | PDict "(pyval \<times> pyval) list"
  | PNdarray "nat list" nat
  | PDataFrame nat "(pyval \<times> pyval list) list"
  | PSeries "(pyval \<times> pyval) list"

fun opaque_class_of :: "opaque_class \<Rightarrow> py_class" where
  "opaque_class_of O_float = T_float"
| "opaque_class_of O_complex = T_complex"
| "opaque_class_of (O_numpy t) = T_numpy t"
| "opaque_class_of (O_pandas t) = T_pandas t"
| "opaque_class_of (O_datetime t) = T_datetime t"
| "opaque_class_of (O_object n) = T_object n"

fun class_of :: "pyval \<Rightarrow> py_class" where
  "class_of (PInt _) = T_int"
| "class_of (PBool _) = T_bool"
| "class_of (PStr _) = T_str"
| "class_of (PBytes _) = T_bytes"
| "class_of (PByteArray _) = T_bytearray"
| "class_of (PMemoryView _) = T_memoryview"
| "class_of (POpaque c _) = opaque_class_of c"
| "class_of PNone = T_NoneType"
| "class_of (PList _) = T_list"
| "class_of (PTuple _) = T_tuple"
| "class_of (PSet _) = T_set"
| "class_of (PDict _) = T_dict"
| "class_of (PNdarray _ _) = T_ndarray"
| "class_of (PDataFrame _ _) = T_DataFrame"
| "class_of (PSeries _) = T_Series"

text \<open>
  \<^verbatim>\<open>isinstance(v, types)\<close> for a tuple of classes. Every subclass relation between two
  modelled classes (\<^verbatim>\<open>bool\<close> below \<^verbatim>\<open>int\<close>, \<^verbatim>\<open>np.float64\<close> below \<^verbatim>\<open>float\<close>,
  \<^verbatim>\<open>pd.Timestamp\<close> below \<^verbatim>\<open>datetime\<close>, ...) has both ends in \<open>TYPES\<close> and none
  reaches a container class, so membership of the value's own class decides the tests
  the module makes.
\<close>

definition isinstance :: "pyval \<Rightarrow> py_class list \<Rightarrow> bool" where
  "isinstance v types = (class_of v \<in> set types)"

subsection \<open>Exceptions, leaf functions and events\<close>

text \<open>
  \<open>NonException\<close> stands for an exception outside the \<^verbatim>\<open>Exception\<close> hierarchy
  (\<^verbatim>\<open>KeyboardInterrupt\<close>, \<^verbatim>\<open>SystemExit\<close>, ...); \<open>UserException\<close> for any other
  \<^verbatim>\<open>Exception\<close> subclass a leaf function raises.
\<close>

datatype error =
    TypeError string
  | IndexError string
  | AttributeError string
  | UserException string
  | NonException string

fun is_Exception :: "error \<Rightarrow> bool" where
  "is_Exception (NonException _) = False"
| "is_Exception _ = True"

type_synonym kwargs = "(string \<times> pyval) list"

text \<open>
  A leaf function: its \<^verbatim>\<open>__name__\<close> and what a call with keyword arguments and
  positional arguments raises or returns.
\<close>

record pyfun =
  fun_name :: string
  fun_call :: "kwargs \<Rightarrow> pyval list \<Rightarrow> error + pyval"

datatype event =
    Call kwargs "pyval list"
  | Logged error

type_synonym 'a comp = "event list \<times> (error + 'a)"

definition ret :: "'a \<Rightarrow> 'a comp" where
  "ret v = ([], Inr v)"

definition raise :: "error \<Rightarrow> 'a comp" where
  "raise e = ([], Inl e)"

definition bind :: "'a comp \<Rightarrow> ('a \<Rightarrow> 'b comp) \<Rightarrow> 'b comp" where
  "bind m f =
     (case m of
        (ev, Inl e) \<Rightarrow> (ev, Inl e)
      | (ev, Inr v) \<Rightarrow> (case f v of (ev', r) \<Rightarrow> (ev @ ev', r)))"

definition lift :: "error + 'a \<Rightarrow> 'a comp" where
  "lift r = ([], r)"

text \<open>\<^verbatim>\<open>fun(*args, **params)\<close>: the call is recorded, its outcome is the function's.\<close>

definition invoke :: "pyfun \<Rightarrow> kwargs \<Rightarrow> pyval list \<Rightarrow> pyval comp" where
  "invoke fn params args = ([Call params args], fun_call fn params args)"

text \<open>
  A list comprehension or a \<^verbatim>\<open>for\<close> loop that appends: the body runs on each element in
  order, and the first exception ends it.
\<close>

fun for_each :: "('a \<Rightarrow> 'b comp) \<Rightarrow> 'a list \<Rightarrow> 'b list comp" where
  "for_each f [] = ret []"
| "for_each f (x # xs) = bind (f x) (\<lambda>y. bind (for_each f xs) (\<lambda>ys. ret (y # ys)))"

text \<open>
  \<^verbatim>\<open>@logger.catch\<close> with its default arguments (\<^verbatim>\<open>exception=Exception\<close>,
  \<^verbatim>\<open>reraise=False\<close>, \<^verbatim>\<open>default=None\<close>): an exception of the \<^verbatim>\<open>Exception\<close> hierarchy that
  leaves the decorated function is written to the log and the call returns \<^verbatim>\<open>None\<close>; any
  other exception passes through.
\<close>

definition logger_catch :: "pyval comp \<Rightarrow> pyval comp" where
  "logger_catch m =
     (case m of
        (ev, Inr v) \<Rightarrow> (ev, Inr v)
      | (ev, Inl e) \<Rightarrow> (if is_Exception e then (ev @ [Logged e], Inr PNone) else (ev, Inl e)))"

subsection \<open>The host\<close>

text \<open>
  What Python does with a value is not always fixed by the representation above: the
  text, the equality and the hash of a float, a numpy scalar, a timestamp or an instance
  of a user's class are those of the object, and what \<^verbatim>\<open>pd.DataFrame(data)\<close> and
  \<^verbatim>\<open>pd.Series(data)\<close> build from, or raise on, an arbitrary value is pandas' affair. These
  are parameters of the model, and every theorem holds for every host:
  \<^item> \<open>repr_of\<close>: \<^verbatim>\<open>repr(v)\<close> of a value whose text the representation does not fix;
  \<^item> \<open>eq_of\<close>: whether a set or dictionary takes \<open>a\<close> and \<open>b\<close> for equal (equal hashes
    and \<^verbatim>\<open>a == b\<close>), for a pair the representation does not decide;
  \<^item> \<open>hashable_of\<close>: whether \<^verbatim>\<open>hash(v)\<close> succeeds, for an opaque value or a memory view;
  \<^item> \<open>DataFrame\<close> and \<open>Series\<close>: the two pandas constructors.
\<close>

record host =
  repr_of :: "pyval \<Rightarrow> string"
  eq_of :: "pyval \<Rightarrow> pyval \<Rightarrow> bool"
  hashable_of :: "pyval \<Rightarrow> bool"
  DataFrame :: "pyval \<Rightarrow> error + pyval"
  Series :: "pyval \<Rightarrow> error + pyval"

subsection \<open>Built-in operations the module uses\<close>

text \<open>
  \<^verbatim>\<open>repr\<close> and \<^verbatim>\<open>str\<close>. Integers, booleans, \<^verbatim>\<open>None\<close>, ASCII strings, byte strings and
  bytearrays are printed as Python prints them, and so are the built-in containers
  around the text of their elements. The text of every other value (an opaque value, a
  string with a character outside ASCII, a memory view, an array, a frame, a series) is
  the host's.
\<close>

definition digit_char :: "nat \<Rightarrow> char" where
  "digit_char k = ''0123456789abcdef'' ! k"

fun nat_repr :: "nat \<Rightarrow> string" where
  "nat_repr n = (if n < 10 then [digit_char n] else nat_repr (n div 10) @ [digit_char (n mod 10)])"

definition int_repr :: "int \<Rightarrow> string" where
  "int_repr i = (if i < 0 then ''-'' @ nat_repr (nat (- i)) else nat_repr (nat i))"

definition escape_char :: "char \<Rightarrow> char \<Rightarrow> string" where
  "escape_char q c =
     (if c = CHR 0x5C then [CHR 0x5C, CHR 0x5C]
      else if c = q then [CHR 0x5C, q]
      else if c = CHR 0x09 then [CHR 0x5C, CHR ''t'']
      else if c = CHR 0x0A then [CHR 0x5C, CHR ''n'']
      else if c = CHR 0x0D then [CHR 0x5C, CHR ''r'']
      else if (of_char c :: nat) < 32 \<or> 127 \<le> (of_char c :: nat)
        then [CHR 0x5C, CHR ''x'', digit_char (of_char c div 16), digit_char (of_char c mod 16)]
      else [c])"

definition str_repr :: "string \<Rightarrow> string" where
  "str_repr s =
     (let q = (if CHR 0x27 \<in> set s \<and> CHR 0x22 \<notin> set s then CHR 0x22 else CHR 0x27)
      in [q] @ concat (map (escape_char q) s) @ [q])"

definition is_ascii :: "string \<Rightarrow> bool" where
  "is_ascii s = list_all (\<lambda>c. (of_char c :: nat) < 128) s"

fun join_with :: "string \<Rightarrow> string list \<Rightarrow> string" where
  "join_with sep [] = []"
| "join_with sep [x] = x"
| "join_with sep (x # y # ys) = x @ sep @ join_with sep (y # ys)"

fun py_repr :: "host \<Rightarrow> pyval \<Rightarrow> string" where
  "py_repr h (PInt i) = int_repr i"
| "py_repr h (PBool b) = (if b then ''True'' else ''False'')"
| "py_repr h (PStr s) = (if is_ascii s then str_repr s else repr_of h (PStr s))"
| "py_repr h (PBytes s) = ''b'' @ str_repr s"
| "py_repr h (PByteArray s) = ''bytearray(b'' @ str_repr s @ '')''"
| "py_repr h PNone = ''None''"
| "py_repr h (PList xs) = ''['' @ join_with '', '' (map (py_repr h) xs) @ '']''"
| "py_repr h (PTuple xs) =
     (if length xs = 1 then ''('' @ join_with '', '' (map (py_repr h) xs) @ '',)''
      else ''('' @ join_with '', '' (map (py_repr h) xs) @ '')'')"
| "py_repr h (PSet xs) =
     (if xs = [] then ''set()'' else ''{'' @ join_with '', '' (map (py_repr h) xs) @ ''}'')"
| "py_repr h (PDict kvs) =
     ''{'' @ join_with '', ''
              (map (\<lambda>kv. py_repr h (fst kv) @ '': '' @ py_repr h (snd kv)) kvs) @ ''}''"
| "py_repr h v = repr_of h v"

text \<open>\<^verbatim>\<open>str(v)\<close>, which is also how an f-string formats \<open>v\<close>: the text itself for a
  string, the host's for the values whose text is the host's, and \<^verbatim>\<open>repr(v)\<close> for the
  other modelled values.\<close>

fun py_str :: "host \<Rightarrow> pyval \<Rightarrow> string" where
  "py_str h (PStr s) = s"
| "py_str h v = py_repr h v"

text \<open>Iteration over a value, as \<^verbatim>\<open>for el in obj\<close>, \<^verbatim>\<open>list(obj)\<close>, \<^verbatim>\<open>tuple(obj)\<close> and
  \<^verbatim>\<open>set(obj)\<close> do it. The module iterates over lists, tuples and sets, and over the
  \<^verbatim>\<open>None\<close> that a caught exception leaves behind, which is not iterable; no other value
  reaches an iteration (lemmas \<open>to_vectorize_List_result\<close> and
  \<open>to_vectorize_multi_lists_result\<close> below), and the last equation is never used.\<close>

fun py_iter :: "pyval \<Rightarrow> error + pyval list" where
  "py_iter (PList xs) = Inr xs"
| "py_iter (PTuple xs) = Inr xs"
| "py_iter (PSet xs) = Inr xs"
| "py_iter PNone = Inl (TypeError ''object is not iterable'')"
| "py_iter v = Inl (TypeError ''object is not iterable'')"

definition py_list :: "pyval \<Rightarrow> error + pyval" where
  "py_list v = (case py_iter v of Inl e \<Rightarrow> Inl e | Inr xs \<Rightarrow> Inr (PList xs))"

definition py_tuple :: "pyval \<Rightarrow> error + pyval" where
  "py_tuple v = (case py_iter v of Inl e \<Rightarrow> Inl e | Inr xs \<Rightarrow> Inr (PTuple xs))"

text \<open>
  Equality as sets and dictionaries see it. Between integers, booleans, strings, byte
  strings, \<^verbatim>\<open>None\<close> and tuples of these, Python's \<^verbatim>\<open>==\<close> is fixed: \<^verbatim>\<open>True == 1\<close> and
  \<^verbatim>\<open>False == 0\<close>, values of different classes are otherwise unequal, and tuples are equal
  when their components are; \<open>eq_key\<close> maps such a value to a representative of its
  class. Every other pair is decided by the host. A lookup takes two values for the same
  member when they are the same object or equal.
\<close>

fun determined :: "pyval \<Rightarrow> bool" where
  "determined (PInt i) = True"
| "determined (PBool b) = True"
| "determined (PStr s) = True"
| "determined (PBytes s) = True"
| "determined PNone = True"
| "determined (PTuple xs) = list_all determined xs"
| "determined v = False"

fun eq_key :: "pyval \<Rightarrow> pyval" where
  "eq_key (PBool b) = PInt (if b then 1 else 0)"
| "eq_key (PTuple xs) = PTuple (map eq_key xs)"
| "eq_key v = v"

definition py_eq :: "host \<Rightarrow> pyval \<Rightarrow> pyval \<Rightarrow> bool" where
  "py_eq h a b = (if determined a \<and> determined b then eq_key a = eq_key b else eq_of h a b)"

definition same_member :: "host \<Rightarrow> pyval \<Rightarrow> pyval \<Rightarrow> bool" where
  "same_member h a b = (a = b \<or> py_eq h a b)"

text \<open>\<^verbatim>\<open>hash(v)\<close> succeeds: never on a list, a set, a dictionary, a bytearray, an array, a
  frame or a series, on a tuple when it does on the components, and always on the other
  built-in scalars; the host decides for an opaque value and a memory view.\<close>

fun py_hashable :: "host \<Rightarrow> pyval \<Rightarrow> bool" where
  "py_hashable h (PByteArray s) = False"
| "py_hashable h (PList xs) = False"
| "py_hashable h (PSet xs) = False"
| "py_hashable h (PDict kvs) = False"
| "py_hashable h (PNdarray sh d) = False"
| "py_hashable h (PDataFrame n cols) = False"
| "py_hashable h (PSeries kvs) = False"
| "py_hashable h (PTuple xs) = list_all (py_hashable h) xs"
| "py_hashable h (POpaque c n) = hashable_of h (POpaque c n)"
| "py_hashable h (PMemoryView s) = hashable_of h (PMemoryView s)"
| "py_hashable h v = True"

text \<open>\<^verbatim>\<open>s.add(x)\<close> on the elements in iteration order: an element that is the same member
  as one already present is dropped.\<close>

definition set_add :: "host \<Rightarrow> pyval list \<Rightarrow> pyval \<Rightarrow> pyval list" where
  "set_add h acc x = (if list_ex (\<lambda>z. same_member h z x) acc then acc else acc @ [x])"

definition py_set :: "host \<Rightarrow> pyval \<Rightarrow> error + pyval" where
  "py_set h v =
     (case py_iter v of
        Inl e \<Rightarrow> Inl e
      | Inr xs \<Rightarrow>
          if list_all (py_hashable h) xs then Inr (PSet (foldl (set_add h) [] xs))
          else Inl (TypeError ''unhashable type''))"

text \<open>\<^verbatim>\<open>d[key] = value\<close>: the value of a key that is the same member is replaced where
  it stands, a new key is appended. The keys the module assigns are strings and the keys
  of a dictionary it was given, which are hashable.\<close>

fun dict_set :: "host \<Rightarrow> (pyval \<times> pyval) list \<Rightarrow> pyval \<Rightarrow> pyval \<Rightarrow> (pyval \<times> pyval) list" where
  "dict_set h [] k v = [(k, v)]"
| "dict_set h ((k', v') # kvs) k v =
     (if same_member h k' k then (k', v) # kvs else (k', v') # dict_set h kvs k v)"

definition dict_of_pairs :: "host \<Rightarrow> (pyval \<times> pyval) list \<Rightarrow> pyval" where
  "dict_of_pairs h kvs = PDict (foldl (\<lambda>d kv. dict_set h d (fst kv) (snd kv)) [] kvs)"

text \<open>Results of operations that raise without producing events are sequenced with
  \<open>bind_e\<close>; \<open>map_m\<close> is a list comprehension over such an operation.\<close>

definition bind_e :: "error + 'a \<Rightarrow> ('a \<Rightarrow> error + 'b) \<Rightarrow> error + 'b" where
  "bind_e m f = (case m of Inl e \<Rightarrow> Inl e | Inr v \<Rightarrow> f v)"

fun map_m :: "('a \<Rightarrow> error + 'b) \<Rightarrow> 'a list \<Rightarrow> error + 'b list" where
  "map_m f [] = Inr []"
| "map_m f (x # xs) = bind_e (f x) (\<lambda>y. bind_e (map_m f xs) (\<lambda>ys. Inr (y # ys)))"

text \<open>\<^verbatim>\<open>objects[i]\<close> on the argument tuple and \<^verbatim>\<open>obj[i]\<close> on a list, for \<open>i\<close> from a
  \<^verbatim>\<open>range\<close>; the module subscripts lists only.\<close>

definition nth_m :: "'a list \<Rightarrow> nat \<Rightarrow> error + 'a" where
  "nth_m xs i = (if i < length xs then Inr (xs ! i) else Inl (IndexError ''index out of range''))"

fun py_getitem :: "pyval \<Rightarrow> nat \<Rightarrow> error + pyval" where
  "py_getitem (PList xs) i = nth_m xs i"
| "py_getitem (PTuple xs) i = nth_m xs i"
| "py_getitem v i = Inl (TypeError ''object is not subscriptable'')"

text \<open>\<^verbatim>\<open>len(obj)\<close>. The module takes the length of lists, tuples and sets only (after
  \<^verbatim>\<open>argument_consistency\<close>, in the branches of these three classes); the last equation
  is never used.\<close>

fun py_len :: "pyval \<Rightarrow> error + nat" where
  "py_len (PList xs) = Inr (length xs)"
| "py_len (PTuple xs) = Inr (length xs)"
| "py_len (PSet xs) = Inr (length xs)"
| "py_len v = Inl (TypeError ''object has no len()'')"

text \<open>\<^verbatim>\<open>obj.items()\<close>, \<^verbatim>\<open>list(obj.keys())\<close> and \<^verbatim>\<open>list(obj.values())\<close>. A series and a frame
  have \<^verbatim>\<open>keys()\<close> too; their \<^verbatim>\<open>values\<close> is an attribute that cannot be called.\<close>

fun dict_items :: "pyval \<Rightarrow> error + (pyval \<times> pyval) list" where
  "dict_items (PDict kvs) = Inr kvs"
| "dict_items v = Inl (AttributeError ''items'')"

fun dict_keys :: "pyval \<Rightarrow> error + pyval list" where
  "dict_keys (PDict kvs) = Inr (map fst kvs)"
| "dict_keys (PSeries kvs) = Inr (map fst kvs)"
| "dict_keys (PDataFrame n cols) = Inr (map fst cols)"
| "dict_keys v = Inl (AttributeError ''keys'')"

fun dict_values :: "pyval \<Rightarrow> error + pyval list" where
  "dict_values (PDict kvs) = Inr (map snd kvs)"
| "dict_values (PSeries kvs) = Inl (TypeError ''object is not callable'')"
| "dict_values (PDataFrame n cols) = Inl (TypeError ''object is not callable'')"
| "dict_values v = Inl (AttributeError ''values'')"

text \<open>\<^verbatim>\<open>df.to_dict(orient="list")\<close> of a frame, \<^verbatim>\<open>s.to_dict()\<close> of a series (the module
  calls it on a series only), \<^verbatim>\<open>obj.shape\<close>, and \<^verbatim>\<open>np.shape(obj)\<close> (which the module
  applies to arrays only; the shape of a value that has no \<^verbatim>\<open>shape\<close> is not modelled).\<close>

fun to_dict_list :: "pyval \<Rightarrow> error + pyval" where
  "to_dict_list (PDataFrame n cols) = Inr (PDict (map (\<lambda>c. (fst c, PList (snd c))) cols))"
| "to_dict_list v = Inl (AttributeError ''to_dict'')"

fun to_dict :: "pyval \<Rightarrow> error + pyval" where
  "to_dict (PSeries kvs) = Inr (PDict kvs)"
| "to_dict v = Inl (AttributeError ''to_dict'')"

fun attr_shape :: "pyval \<Rightarrow> error + nat list" where
  "attr_shape (PNdarray sh d) = Inr sh"
| "attr_shape (PDataFrame n cols) = Inr [n, length cols]"
| "attr_shape (PSeries kvs) = Inr [length kvs]"
| "attr_shape v = Inl (AttributeError ''shape'')"

fun np_shape :: "pyval \<Rightarrow> error + nat list" where
  "np_shape (PNdarray sh d) = Inr sh"
| "np_shape (PDataFrame n cols) = Inr [n, length cols]"
| "np_shape (PSeries kvs) = Inr [length kvs]"
| "np_shape v = Inr []"

text \<open>A conditional expression \<^verbatim>\<open>a if c else b\<close>.\<close>

definition cond_expr :: "'a \<Rightarrow> bool \<Rightarrow> 'a \<Rightarrow> 'a" where
  "cond_expr a c b = (if c then a else b)"

text \<open>\<^verbatim>\<open>all([g(obj) == g(objects[0]) for obj in objects])\<close>: the comprehension evaluates
  every comparison; on an empty tuple \<^verbatim>\<open>objects[0]\<close> is never evaluated.\<close>

definition all_same :: "(pyval \<Rightarrow> error + 'b) \<Rightarrow> pyval list \<Rightarrow> error + bool" where
  "all_same g objects =
     bind_e (map_m (\<lambda>obj. bind_e (g obj) (\<lambda>a.
                      bind_e (nth_m objects 0) (\<lambda>first.
                        bind_e (g first) (\<lambda>b. Inr (a = b))))) objects)
       (\<lambda>bs. Inr (list_all id bs))"

subsection \<open>Helper functions of the module\<close>

definition all_types_same :: "pyval list \<Rightarrow> py_class list \<Rightarrow> bool" where
  "all_types_same obj types = list_all (\<lambda>el. isinstance el types) obj"

definition argument_consistency :: "pyval list \<Rightarrow> py_class list \<Rightarrow> bool" where
  "argument_consistency objects cont_types =
     list_ex (\<lambda>typ. list_all (\<lambda>obj. isinstance obj [typ]) objects) cont_types"

definition len_consistency :: "pyval list \<Rightarrow> string \<Rightarrow> error + bool" where
  "len_consistency objects ctype =
     (if ctype \<in> set [''tuple'', ''list'', ''str''] then all_same py_len objects
      else if ctype = ''dict''
        then all_same (\<lambda>obj. bind_e (dict_keys obj) (\<lambda>ks. Inr (length ks))) objects
      else if ctype \<in> set [''pd.Series'', ''pd.DataFrame''] then all_same attr_shape objects
      else if ctype = ''np.ndarray'' then all_same np_shape objects
      else Inr False)"

text \<open>\<^verbatim>\<open>get_section\<close> returns the tuple of values for \<^verbatim>\<open>"list"\<close>, the pair of the key
  list and the value tuple for \<^verbatim>\<open>"dict"\<close>, and the empty tuple otherwise; the model
  returns the pair in every case, with no keys where Python returns values only.\<close>

definition get_section :: "pyval list \<Rightarrow> nat \<Rightarrow> string \<Rightarrow> error + (pyval list \<times> pyval list)" where
  "get_section objects i ctype =
     (if ctype = ''list''
        then bind_e (map_m (\<lambda>obj. py_getitem obj i) objects) (\<lambda>vals. Inr ([], vals))
      else if ctype = ''dict''
        then bind_e (map_m (\<lambda>obj. bind_e (dict_keys obj) (\<lambda>ks. nth_m ks i)) objects) (\<lambda>key_el.
             bind_e (map_m (\<lambda>obj. bind_e (dict_values obj) (\<lambda>vs. nth_m vs i)) objects) (\<lambda>val_el.
               Inr (key_el, val_el)))
      else Inr ([], []))"

definition dtype_consistency_in_container :: "pyval list \<Rightarrow> py_class list \<Rightarrow> bool" where
  "dtype_consistency_in_container container base_dtypes =
     list_all (\<lambda>element. isinstance element base_dtypes) container"

text \<open>The text of \<^verbatim>\<open>CONTAINER_TYPES\<close> in the error messages.\<close>

definition CONTAINER_TYPES_str :: string where
  "CONTAINER_TYPES_str =
     ''(<class 'list'>, <class 'set'>, <class 'tuple'>, <class 'dict'>, '' @
     ''<class 'numpy.ndarray'>, <class 'pandas.core.frame.DataFrame'>, '' @
     ''<class 'pandas.core.series.Series'>)''"

subsection \<open>Termination measure and congruence rules\<close>

text \<open>A measure of nesting: converting a tuple, a set, a frame or a series to the list
  or dictionary the engine recurses on makes it smaller, and so does taking an element.\<close>

fun weight :: "pyval \<Rightarrow> nat" where
  "weight (PList xs) = 1 + sum_list (map weight xs)"
| "weight (PTuple xs) = 2 + sum_list (map weight xs)"
| "weight (PSet xs) = 2 + sum_list (map weight xs)"
| "weight (PDict kvs) = 1 + sum_list (map (\<lambda>kv. weight (fst kv) + weight (snd kv)) kvs)"
| "weight (PDataFrame n cols) =
     2 + sum_list (map (\<lambda>c. weight (fst c) + (1 + sum_list (map weight (snd c)))) cols)"
| "weight (PSeries kvs) = 2 + sum_list (map (\<lambda>kv. weight (fst kv) + weight (snd kv)) kvs)"
| "weight v = 0"

lemma bind_cong [fundef_cong]:
  assumes "m = m'" and "\<And>ev v. m' = (ev, Inr v) \<Longrightarrow> f v = g v"
  shows "bind m f = bind m' g"
  using assms by (auto simp: bind_def split: prod.splits sum.splits)

lemma for_each_cong [fundef_cong]:
  assumes "xs = ys" and "\<And>x. x \<in> set ys \<Longrightarrow> f x = g x"
  shows "for_each f xs = for_each g ys"
  using assms by (induction xs arbitrary: ys) (auto intro!: bind_cong)

lemma weight_member: "x \<in> set xs \<Longrightarrow> weight x \<le> sum_list (map weight xs)"
  by (induction xs) auto

lemma weight_member_snd:
  "kv \<in> set kvs \<Longrightarrow>
   weight (snd kv) \<le> sum_list (map (\<lambda>kv. weight (fst kv) + weight (snd kv)) kvs)"
  by (induction kvs) auto

lemma opaque_not_container [simp]:
  "opaque_class_of c \<noteq> T_list" "opaque_class_of c \<noteq> T_tuple"
  "opaque_class_of c \<noteq> T_set" "opaque_class_of c \<noteq> T_dict"
  "opaque_class_of c \<noteq> T_ndarray" "opaque_class_of c \<noteq> T_DataFrame"
  "opaque_class_of c \<noteq> T_Series" "opaque_class_of c \<noteq> T_NoneType"
  by (cases c; simp)+

lemma weight_to_dict_list:
  "to_dict_list obj = Inr d \<Longrightarrow> weight d < weight obj"
  by (cases obj) (auto simp: comp_def less_Suc_eq_le)

lemma weight_to_dict:
  "to_dict obj = Inr d \<Longrightarrow> weight d < weight obj"
  by (cases obj) auto

lemma weight_py_list:
  "py_list obj = Inr l \<Longrightarrow> class_of obj \<in> {T_tuple, T_set} \<Longrightarrow> weight l < weight obj"
  by (cases obj) (auto simp: py_list_def)

lemma weight_py_iter:
  "py_iter obj = Inr els \<Longrightarrow> class_of obj = T_list \<Longrightarrow> el \<in> set els \<Longrightarrow>
   weight el < weight obj"
  by (cases obj) (auto dest: weight_member)

lemma weight_dict_items:
  "dict_items obj = Inr kvs \<Longrightarrow> kv \<in> set kvs \<Longrightarrow> weight (snd kv) < weight obj"
  by (cases obj) (auto dest!: weight_member_snd)

definition weight_first :: "pyval list \<Rightarrow> nat" where
  "weight_first objects = (case objects of [] \<Rightarrow> 0 | obj # _ \<Rightarrow> weight obj)"

lemma map_m_Cons:
  "map_m f (x # xs) = Inr ys \<Longrightarrow> \<exists>y ys'. f x = Inr y \<and> ys = y # ys'"
  by (auto simp: bind_e_def split: sum.splits)

lemma nth_m_0: "nth_m objects 0 = Inr first \<Longrightarrow> \<exists>rest. objects = first # rest"
  by (cases objects) (auto simp: nth_m_def)

lemma weight_nth_m: "nth_m xs i = Inr x \<Longrightarrow> weight x \<le> sum_list (map weight xs)"
  by (auto simp: nth_m_def intro: weight_member split: if_splits)

lemma weight_getitem: "py_getitem obj i = Inr x \<Longrightarrow> weight x < weight obj"
  by (cases obj) (auto dest: weight_nth_m)

lemma map_m_first:
  assumes "nth_m objects 0 = Inr first" and "map_m f objects = Inr ys"
  obtains y ys' where "f first = Inr y" and "ys = y # ys'"
proof -
  from assms(1) obtain rest where "objects = first # rest" by (auto dest: nth_m_0)
  with assms(2) have "map_m f (first # rest) = Inr ys" by simp
  then show ?thesis using that by (blast dest: map_m_Cons)
qed

lemma weight_first_nth_m: "nth_m objects 0 = Inr first \<Longrightarrow> weight_first objects = weight first"
  by (auto simp: weight_first_def dest: nth_m_0)

lemma weight_first_map_m:
  assumes "nth_m objects 0 = Inr first" and "map_m f objects = Inr new_objects"
    and "\<And>d. f first = Inr d \<Longrightarrow> weight d < weight first"
  shows "weight_first new_objects < weight_first objects"
proof -
  from assms(1,2) obtain y ys where "f first = Inr y" "new_objects = y # ys"
    by (rule map_m_first)
  with assms(1,3) show ?thesis by (simp add: weight_first_nth_m) (simp add: weight_first_def)
qed

lemma weight_dict_value:
  "bind_e (dict_values obj) (\<lambda>vs. nth_m vs i) = Inr x \<Longrightarrow> weight x < weight obj"
proof (cases obj)
  case (PDict kvs)
  assume "bind_e (dict_values obj) (\<lambda>vs. nth_m vs i) = Inr x"
  with PDict have "x \<in> set (map snd kvs)"
    by (auto simp: bind_e_def nth_m_def split: if_splits)
  then obtain kv where "kv \<in> set kvs" "x = snd kv" by auto
  with PDict show ?thesis by (auto dest!: weight_member_snd)
qed (auto simp: bind_e_def)

lemma weight_first_section:
  assumes "nth_m objects 0 = Inr first" and "get_section objects i ctype = Inr sec"
    and "ctype = ''list'' \<or> ctype = ''dict''"
  shows "weight_first (snd sec) < weight_first objects"
proof -
  from assms(2,3) consider
    (l) "map_m (\<lambda>obj. py_getitem obj i) objects = Inr (snd sec)"
  | (d) "map_m (\<lambda>obj. bind_e (dict_values obj) (\<lambda>vs. nth_m vs i)) objects = Inr (snd sec)"
    by (auto simp: get_section_def bind_e_def split: sum.splits)
  then show ?thesis
  proof cases
    case l
    with assms(1) show ?thesis by (rule weight_first_map_m) (rule weight_getitem)
  next
    case d
    with assms(1) show ?thesis by (rule weight_first_map_m) (rule weight_dict_value)
  qed
qed

lemma weight_py_list_first:
  assumes "nth_m objects 0 = Inr first" and "map_m py_list objects = Inr new_objects"
    and "class_of first \<in> {T_tuple, T_set}"
  shows "weight_first new_objects < weight_first objects"
  using assms(1,2) by (rule weight_first_map_m) (rule weight_py_list[OF _ assms(3)])


subsection \<open>\<^verbatim>\<open>vectorize\<close>: the single-input map\<close>

function to_vectorize :: "host \<Rightarrow> pyfun \<Rightarrow> pyval \<Rightarrow> pyval comp" where
  "to_vectorize h fn obj = logger_catch
     (if isinstance obj TYPES then invoke fn [] [obj]
      else if \<not> isinstance obj CONTAINER_TYPES
        then raise (TypeError (py_str h obj @ '' is not a data container.''))
      else if isinstance obj [T_list] then
        bind (lift (py_iter obj)) (\<lambda>els.
          if all_types_same els TYPES
            then bind (for_each (\<lambda>el. invoke fn [] [el]) els) (\<lambda>r. ret (PList r))
          else bind (for_each (\<lambda>el. cond_expr (invoke fn [] [el]) (isinstance el TYPES)
                                        (to_vectorize h fn el)) els)
                 (\<lambda>r. ret (PList r)))
      else if isinstance obj [T_tuple] then
        bind (lift (py_list obj)) (\<lambda>l. bind (to_vectorize h fn l) (\<lambda>r. lift (py_tuple r)))
      else if isinstance obj [T_set] then
        bind (lift (py_list obj)) (\<lambda>l. bind (to_vectorize h fn l) (\<lambda>r. lift (py_set h r)))
      else if isinstance obj [T_dict] then
        bind (lift (dict_items obj)) (\<lambda>items.
          bind (for_each (\<lambda>kv. bind (cond_expr (invoke fn [] [snd kv]) (isinstance obj [T_dict])
                                         (to_vectorize h fn (snd kv)))
                                  (\<lambda>r. ret (fst kv, r)))
                  items)
            (\<lambda>r. ret (dict_of_pairs h r)))
      else if isinstance obj [T_ndarray] then invoke fn [] [obj]
      else if isinstance obj [T_DataFrame] then
        bind (lift (to_dict_list obj)) (\<lambda>d.
          bind (to_vectorize h fn d) (\<lambda>r. lift (DataFrame h r)))
      else ret PNone)"
  by pat_completeness auto
termination
proof (relation "measure (\<lambda>(h, fn, obj). weight obj)", goal_cases)
  case 1
  show ?case by simp
next
  case (2 h fn obj ev els el)
  then show ?case
    by (auto simp: isinstance_def lift_def intro: weight_py_iter)
next
  case (3 h fn obj ev l)
  then show ?case
    by (auto simp: isinstance_def lift_def intro: weight_py_list)
next
  case (4 h fn obj ev l)
  then show ?case
    by (auto simp: isinstance_def lift_def intro: weight_py_list)
next
  case (5 h fn obj ev items kv)
  then show ?case
    by (auto simp: lift_def intro: weight_dict_items)
next
  case (6 h fn obj ev d)
  then show ?case
    by (auto simp: lift_def intro: weight_to_dict_list)
qed

definition vectorize :: "host \<Rightarrow> pyfun \<Rightarrow> pyval \<Rightarrow> pyval comp" where
  "vectorize h fn = to_vectorize h fn"

subsection \<open>\<^verbatim>\<open>vectorize_param\<close>: the single-input map with uniform parameters\<close>

text \<open>The decorated function is \<^verbatim>\<open>to_vectorize(obj, **params)\<close>; its recursive calls are
  written \<^verbatim>\<open>to_vectorize(el)\<close>, \<^verbatim>\<open>to_vectorize(list(obj))\<close>, \<^verbatim>\<open>to_vectorize(val)\<close> and
  \<^verbatim>\<open>to_vectorize(obj.to_dict(orient="list"))\<close>, so \<^verbatim>\<open>params\<close> is empty in them.\<close>

function to_vectorize_param :: "host \<Rightarrow> pyfun \<Rightarrow> pyval \<Rightarrow> kwargs \<Rightarrow> pyval comp" where
  "to_vectorize_param h fn obj params = logger_catch
     (if isinstance obj TYPES then invoke fn params [obj]
      else if \<not> isinstance obj CONTAINER_TYPES
        then raise (TypeError (py_str h obj @ '' is not a data container.''))
      else if isinstance obj [T_list] then
        bind (lift (py_iter obj)) (\<lambda>els.
          if all_types_same els TYPES
            then bind (for_each (\<lambda>el. invoke fn params [el]) els) (\<lambda>r. ret (PList r))
          else bind (for_each (\<lambda>el. cond_expr (invoke fn params [el]) (isinstance el TYPES)
                                        (to_vectorize_param h fn el [])) els)
                 (\<lambda>r. ret (PList r)))
      else if isinstance obj [T_tuple] then
        bind (lift (py_list obj)) (\<lambda>l.
          bind (to_vectorize_param h fn l []) (\<lambda>r. lift (py_tuple r)))
      else if isinstance obj [T_set] then
        bind (lift (py_list obj)) (\<lambda>l.
          bind (to_vectorize_param h fn l []) (\<lambda>r. lift (py_set h r)))
      else if isinstance obj [T_dict] then
        bind (lift (dict_items obj)) (\<lambda>items.
          bind (for_each (\<lambda>kv. bind (cond_expr (invoke fn params [snd kv])
                                         (isinstance obj [T_dict])
                                         (to_vectorize_param h fn (snd kv) []))
                                  (\<lambda>r. ret (fst kv, r)))
                  items)
            (\<lambda>r. ret (dict_of_pairs h r)))
      else if isinstance obj [T_ndarray] then invoke fn params [obj]
      else if isinstance obj [T_DataFrame] then
        bind (lift (to_dict_list obj)) (\<lambda>d.
          bind (to_vectorize_param h fn d []) (\<lambda>r. lift (DataFrame h r)))
      else ret PNone)"
  by pat_completeness auto
termination
proof (relation "measure (\<lambda>(h, fn, obj, params). weight obj)", goal_cases)
  case 1
  show ?case by simp
next
  case (2 h fn obj params ev els el)
  then show ?case
    by (auto simp: isinstance_def lift_def intro: weight_py_iter)
next
  case (3 h fn obj params ev l)
  then show ?case
    by (auto simp: isinstance_def lift_def intro: weight_py_list)
next
  case (4 h fn obj params ev l)
  then show ?case
    by (auto simp: isinstance_def lift_def intro: weight_py_list)
next
  case (5 h fn obj params ev items kv)
  then show ?case
    by (auto simp: lift_def intro: weight_dict_items)
next
  case (6 h fn obj params ev d)
  then show ?case
    by (auto simp: lift_def intro: weight_to_dict_list)
qed

definition vectorize_param :: "host \<Rightarrow> pyfun \<Rightarrow> pyval \<Rightarrow> kwargs \<Rightarrow> pyval comp" where
  "vectorize_param h fn = to_vectorize_param h fn"

subsection \<open>\<^verbatim>\<open>vectorize_multi\<close>: the multi-input zip\<close>

text \<open>The decorated function is \<^verbatim>\<open>to_vectorize(*objects)\<close>; \<open>objects\<close> is the argument
  tuple. A section \<open>sec\<close> is the pair of the keys and the values at one position. In the
  dictionary branch the source writes out the two comprehensions \<^verbatim>\<open>key_el\<close> and
  \<^verbatim>\<open>val_el\<close> that \<^verbatim>\<open>get_section(objects, i, "dict")\<close> computes; the model calls
  \<open>get_section\<close> for them. The loops build their result from the list of what each
  iteration appends or assigns; an exception ends the loop and discards it.\<close>

function to_vectorize_multi :: "host \<Rightarrow> pyfun \<Rightarrow> pyval list \<Rightarrow> pyval comp" where
  "to_vectorize_multi h fn objects = logger_catch
     (if all_types_same objects TYPES then invoke fn [] objects
      else if \<not> argument_consistency objects CONTAINER_TYPES
        then raise (TypeError (''Input objects should have the same type. Allowed types are ''
                               @ CONTAINER_TYPES_str @ ''.''))
      else bind (lift (nth_m objects 0)) (\<lambda>first.
        if isinstance first [T_list] then
          bind (lift (len_consistency objects ''list'')) (\<lambda>ok.
            if \<not> ok then raise (TypeError ALL_ARGUMENTS)
            else bind (lift (py_len first)) (\<lambda>n.
              bind (for_each (\<lambda>i. bind (lift (get_section objects i ''list'')) (\<lambda>sec.
                      if all_types_same (snd sec) TYPES then invoke fn [] (snd sec)
                      else to_vectorize_multi h fn (snd sec))) [0..<n])
                (\<lambda>r. ret (PList r))))
        else if isinstance first [T_tuple] then
          bind (lift (len_consistency objects ''list'')) (\<lambda>ok.
            if \<not> ok then raise (TypeError ALL_ARGUMENTS)
            else bind (lift (map_m py_list objects)) (\<lambda>new_objects.
              bind (to_vectorize_multi h fn new_objects) (\<lambda>r. lift (py_tuple r))))
        else if isinstance first [T_set] then
          bind (lift (len_consistency objects ''list'')) (\<lambda>ok.
            if \<not> ok then raise (TypeError ALL_ARGUMENTS)
            else bind (lift (map_m py_list objects)) (\<lambda>new_objects.
              bind (to_vectorize_multi h fn new_objects) (\<lambda>r. lift (py_set h r))))
        else if isinstance first [T_dict] then
          bind (lift (all_same (\<lambda>obj. bind_e (dict_keys obj) (\<lambda>ks. Inr (length ks))) objects))
            (\<lambda>ok.
            if \<not> ok then raise (TypeError ALL_ARGUMENTS)
            else bind (lift (bind_e (dict_keys first) (\<lambda>ks. Inr (length ks)))) (\<lambda>n.
              bind (for_each (\<lambda>i. bind (lift (get_section objects i ''dict'')) (\<lambda>sec.
                      bind (if list_all (\<lambda>element. isinstance element TYPES) (snd sec)
                              then invoke fn [] (snd sec)
                            else to_vectorize_multi h fn (snd sec))
                        (\<lambda>r. ret (PStr (fun_name fn @ py_str h (PList (fst sec))), r))))
                      [0..<n])
                (\<lambda>r. ret (dict_of_pairs h r))))
        else if isinstance first [T_ndarray] then
          bind (lift (all_same np_shape objects)) (\<lambda>ok.
            if \<not> ok then raise (TypeError ALL_ARGUMENTS)
            else invoke fn [] objects)
        else if isinstance first [T_DataFrame] then
          bind (lift (all_same attr_shape objects)) (\<lambda>ok.
            if \<not> ok then raise (TypeError ALL_ARGUMENTS)
            else bind (lift (map_m to_dict_list objects)) (\<lambda>new_objects.
              bind (to_vectorize_multi h fn new_objects) (\<lambda>r. lift (DataFrame h r))))
        else if isinstance first [T_Series] then
          bind (lift (all_same attr_shape objects)) (\<lambda>ok.
            if \<not> ok then raise (TypeError ALL_ARGUMENTS)
            else bind (lift (map_m to_dict objects)) (\<lambda>new_objects.
              bind (to_vectorize_multi h fn new_objects) (\<lambda>r. lift (Series h r))))
        else ret PNone))"
  by pat_completeness auto
termination
proof (relation "measure (\<lambda>(h, fn, objects). weight_first objects)", goal_cases)
  case 1
  show ?case by simp
next
  case (2 h fn objects ev first ev1 ok ev2 n i ev3 sec)
  then show ?case
    by (auto simp: lift_def intro: weight_first_section)
next
  case (3 h fn objects ev first ev1 ok ev2 new_objects)
  then show ?case
    by (auto simp: lift_def isinstance_def intro: weight_py_list_first)
next
  case (4 h fn objects ev first ev1 ok ev2 new_objects)
  then show ?case
    by (auto simp: lift_def isinstance_def intro: weight_py_list_first)
next
  case (5 h fn objects ev first ev1 ok ev2 n i ev3 sec)
  then show ?case
    by (auto simp: lift_def intro: weight_first_section)
next
  case (6 h fn objects ev first ev1 ok ev2 new_objects)
  then show ?case
    by (auto simp: lift_def intro: weight_first_map_m weight_to_dict_list)
next
  case (7 h fn objects ev first ev1 ok ev2 new_objects)
  then show ?case
    by (auto simp: lift_def intro: weight_first_map_m weight_to_dict)
qed

definition vectorize_multi :: "host \<Rightarrow> pyfun \<Rightarrow> pyval list \<Rightarrow> pyval comp" where
  "vectorize_multi h fn = to_vectorize_multi h fn"

subsection \<open>\<^verbatim>\<open>vectorize_multi_param\<close>: the multi-input zip with uniform parameters\<close>

function to_vectorize_multi_param ::
  "host \<Rightarrow> pyfun \<Rightarrow> pyval list \<Rightarrow> kwargs \<Rightarrow> pyval comp" where
  "to_vectorize_multi_param h fn objects params = logger_catch
     (if \<not> list_all (\<lambda>param. isinstance param TYPES) (map snd params)
        then raise (TypeError (''Parameters should be of type: '' @ CONTAINER_TYPES_str))
      else if list_all (\<lambda>obj. isinstance obj TYPES) objects then invoke fn params objects
      else if \<not> list_ex (\<lambda>typ. list_all (\<lambda>obj. isinstance obj [typ]) objects) CONTAINER_TYPES
        then raise (TypeError (''Input objects should have the same type. Allowed types are ''
                               @ CONTAINER_TYPES_str @ ''.''))
      else bind (lift (nth_m objects 0)) (\<lambda>first.
        if isinstance first [T_list] then
          bind (lift (len_consistency objects ''list'')) (\<lambda>ok.
            if \<not> ok then raise (TypeError ALL_ARGUMENTS)
            else bind (lift (py_len first)) (\<lambda>n.
              bind (for_each (\<lambda>i. bind (lift (get_section objects i ''list'')) (\<lambda>sec.
                      if dtype_consistency_in_container (snd sec) TYPES
                        then invoke fn params (snd sec)
                      else to_vectorize_multi_param h fn (snd sec) params)) [0..<n])
                (\<lambda>r. ret (PList r))))
        else if isinstance first [T_tuple] then
          bind (lift (len_consistency objects ''tuple'')) (\<lambda>ok.
            if \<not> ok then raise (TypeError ALL_ARGUMENTS)
            else bind (lift (map_m py_list objects)) (\<lambda>new_objects.
              bind (to_vectorize_multi_param h fn new_objects params) (\<lambda>r. lift (py_tuple r))))
        else if isinstance first [T_set] then
          bind (lift (len_consistency objects ''set'')) (\<lambda>ok.
            if \<not> ok then raise (TypeError ALL_ARGUMENTS)
            else bind (lift (map_m py_list objects)) (\<lambda>new_objects.
              bind (to_vectorize_multi_param h fn new_objects params) (\<lambda>r. lift (py_set h r))))
        else if isinstance first [T_dict] then
          bind (lift (len_consistency objects ''dict'')) (\<lambda>ok.
            if \<not> ok then raise (TypeError ALL_ARGUMENTS)
            else bind (lift (bind_e (dict_keys first) (\<lambda>ks. Inr (length ks)))) (\<lambda>n.
              bind (for_each (\<lambda>i. bind (lift (get_section objects i ''dict'')) (\<lambda>sec.
                      bind (if dtype_consistency_in_container (snd sec) TYPES
                              then invoke fn params (snd sec)
                            else to_vectorize_multi_param h fn (snd sec) params)
                        (\<lambda>r. ret (PStr (fun_name fn @ py_str h (PList (fst sec))), r))))
                      [0..<n])
                (\<lambda>r. ret (dict_of_pairs h r))))
        else if isinstance first [T_ndarray] then
          bind (lift (len_consistency objects ''np.ndarray'')) (\<lambda>ok.
            if \<not> ok then raise (TypeError ALL_ARGUMENTS)
            else invoke fn params objects)
        else if isinstance first [T_DataFrame] then
          bind (lift (len_consistency objects ''pd.DataFrame'')) (\<lambda>ok.
            if \<not> ok then raise (TypeError ALL_ARGUMENTS)
            else bind (lift (map_m to_dict_list objects)) (\<lambda>new_objects.
              bind (to_vectorize_multi_param h fn new_objects params) (\<lambda>r. lift (DataFrame h r))))
        else if isinstance first [T_Series] then
          bind (lift (len_consistency objects ''pd.Series'')) (\<lambda>ok.
            if \<not> ok then raise (TypeError ALL_ARGUMENTS)
            else bind (lift (map_m to_dict objects)) (\<lambda>new_objects.
              bind (to_vectorize_multi_param h fn new_objects params) (\<lambda>r. lift (Series h r))))
        else ret PNone))"
  by pat_completeness auto
termination
proof (relation "measure (\<lambda>(h, fn, objects, params). weight_first objects)", goal_cases)
  case 1
  show ?case by simp
next
  case (2 h fn objects params ev first ev1 ok ev2 n i ev3 sec)
  then show ?case
    by (auto simp: lift_def intro: weight_first_section)
next
  case (3 h fn objects params ev first ev1 ok ev2 new_objects)
  then show ?case
    by (auto simp: lift_def isinstance_def intro: weight_py_list_first)
next
  case (4 h fn objects params ev first ev1 ok ev2 new_objects)
  then show ?case
    by (auto simp: lift_def isinstance_def intro: weight_py_list_first)
next
  case (5 h fn objects params ev first ev1 ok ev2 n i ev3 sec)
  then show ?case
    by (auto simp: lift_def intro: weight_first_section)
next
  case (6 h fn objects params ev first ev1 ok ev2 new_objects)
  then show ?case
    by (auto simp: lift_def intro: weight_first_map_m weight_to_dict_list)
next
  case (7 h fn objects params ev first ev1 ok ev2 new_objects)
  then show ?case
    by (auto simp: lift_def intro: weight_first_map_m weight_to_dict)
qed

definition vectorize_multi_param ::
  "host \<Rightarrow> pyfun \<Rightarrow> pyval list \<Rightarrow> kwargs \<Rightarrow> pyval comp" where
  "vectorize_multi_param h fn = to_vectorize_multi_param h fn"

subsection \<open>Example leaf functions\<close>

text \<open>Instances for the theorems below. The example host is consulted by none of them:
  their values are integers, booleans, ASCII strings, \<^verbatim>\<open>None\<close> and containers of these,
  and no frame or series is built. Its constructors reject every argument, it takes no
  two values for equal, and it prints nothing.\<close>

definition example_host :: host where
  "example_host = \<lparr> repr_of = (\<lambda>v. []), eq_of = (\<lambda>a b. False), hashable_of = (\<lambda>v. True),
                     DataFrame = (\<lambda>v. Inl (UserException ''ValueError'')),
                     Series = (\<lambda>v. Inl (UserException ''ValueError'')) \<rparr>"

text \<open>\<^verbatim>\<open>def add(x, y): return x + y\<close> on integers.\<close>

definition add :: pyfun where
  "add = \<lparr> fun_name = ''add'',
           fun_call = (\<lambda>kw args. case args of
                         [PInt a, PInt b] \<Rightarrow> Inr (PInt (a + b))
                       | _ \<Rightarrow> Inl (TypeError ''unsupported operand'')) \<rparr>"

text \<open>\<^verbatim>\<open>lambda x: 0\<close>.\<close>

definition zero_fn :: pyfun where
  "zero_fn = \<lparr> fun_name = ''<lambda>'',
            fun_call = (\<lambda>kw args. case args of
                          [x] \<Rightarrow> Inr (PInt 0)
                        | _ \<Rightarrow> Inl (TypeError ''wrong number of arguments'')) \<rparr>"

text \<open>\<^verbatim>\<open>lambda x: True if x == 1 else 1\<close> on integers.\<close>

definition one_fn :: pyfun where
  "one_fn = \<lparr> fun_name = ''<lambda>'',
             fun_call = (\<lambda>kw args. case args of
                           [PInt x] \<Rightarrow> Inr (if x = 1 then PBool True else PInt 1)
                         | _ \<Rightarrow> Inl (TypeError ''bad arguments'')) \<rparr>"

text \<open>\<^verbatim>\<open>def box(x): return (x,)\<close>.\<close>

definition box :: pyfun where
  "box = \<lparr> fun_name = ''box'',
           fun_call = (\<lambda>kw args. case args of
                         [x] \<Rightarrow> Inr (PTuple [x])
                       | _ \<Rightarrow> Inl (TypeError ''wrong number of arguments'')) \<rparr>"

text \<open>\<^verbatim>\<open>def f(x, scale): return x * scale\<close> and \<^verbatim>\<open>def g(x, scale=1): return x * scale\<close>
  on integers.\<close>

definition scale_fn :: pyfun where
  "scale_fn = \<lparr> fun_name = ''f'',
                fun_call = (\<lambda>kw args. case (args, kw) of
                              ([PInt a], [(''scale'', PInt k)]) \<Rightarrow> Inr (PInt (a * k))
                            | _ \<Rightarrow> Inl (TypeError ''missing argument: scale'')) \<rparr>"

definition scale_default :: pyfun where
  "scale_default = \<lparr> fun_name = ''g'',
                fun_call = (\<lambda>kw args. case (args, kw) of
                              ([PInt a], [(''scale'', PInt k)]) \<Rightarrow> Inr (PInt (a * k))
                            | ([PInt a], []) \<Rightarrow> Inr (PInt a)
                            | _ \<Rightarrow> Inl (TypeError ''bad arguments'')) \<rparr>"

text \<open>A function that raises \<^verbatim>\<open>ValueError\<close> and one that raises \<^verbatim>\<open>KeyboardInterrupt\<close>.\<close>

definition raise_value_error :: pyfun where
  "raise_value_error = \<lparr> fun_name = ''boom'',
                         fun_call = (\<lambda>kw args. Inl (UserException ''ValueError'')) \<rparr>"

definition raise_interrupt :: pyfun where
  "raise_interrupt = \<lparr> fun_name = ''stop'',
                       fun_call = (\<lambda>kw args. Inl (NonException ''KeyboardInterrupt'')) \<rparr>"

text \<open>The calls of the leaf function among the events of a run.\<close>

definition calls_of :: "event list \<Rightarrow> (kwargs \<times> pyval list) list" where
  "calls_of evs =
     concat (map (\<lambda>ev. case ev of Call kw args \<Rightarrow> [(kw, args)] | Logged e \<Rightarrow> []) evs)"

text \<open>\<^verbatim>\<open>set(ys)\<close> on a list of hashable values.\<close>

definition py_dedup :: "host \<Rightarrow> pyval list \<Rightarrow> pyval list" where
  "py_dedup h ys = foldl (set_add h) [] ys"

text \<open>No value of the list is the same member as a later one: the keys of a dictionary
  and the members of a set are such lists.\<close>

fun no_dups :: "host \<Rightarrow> pyval list \<Rightarrow> bool" where
  "no_dups h [] = True"
| "no_dups h (x # xs) = (\<not> list_ex (same_member h x) xs \<and> no_dups h xs)"

text \<open>The shape the spec compares: the length of a sequence, tuple or set, the number
  of keys of a mapping, the dimensional shape of an array, a frame or a series.\<close>

fun spec_shape :: "pyval \<Rightarrow> nat list" where
  "spec_shape (PList xs) = [length xs]"
| "spec_shape (PTuple xs) = [length xs]"
| "spec_shape (PSet xs) = [length xs]"
| "spec_shape (PDict kvs) = [length kvs]"
| "spec_shape (PNdarray sh d) = sh"
| "spec_shape (PDataFrame n cols) = [n, length cols]"
| "spec_shape (PSeries kvs) = [length kvs]"
| "spec_shape v = []"

text \<open>The keys and the values at position \<open>i\<close> of a list of dictionaries, and the key
  \<^verbatim>\<open>f"{fun.__name__}{key_el}"\<close>.\<close>

definition keys_at :: "(pyval \<times> pyval) list list \<Rightarrow> nat \<Rightarrow> pyval list" where
  "keys_at kvss i = map (\<lambda>kvs. fst (kvs ! i)) kvss"

definition values_at :: "(pyval \<times> pyval) list list \<Rightarrow> nat \<Rightarrow> pyval list" where
  "values_at kvss i = map (\<lambda>kvs. snd (kvs ! i)) kvss"

definition synth_key :: "host \<Rightarrow> pyfun \<Rightarrow> pyval list \<Rightarrow> pyval" where
  "synth_key h fn key_el = PStr (fun_name fn @ py_str h (PList key_el))"

text \<open>\<open>nest_list n v\<close> is \<^verbatim>\<open>[[... v]]\<close> with \<open>n\<close> levels of lists; \<open>list_depth\<close> and
  \<open>mapping_depth\<close> count the levels of lists and of mappings of a value.\<close>

fun nest_list :: "nat \<Rightarrow> pyval \<Rightarrow> pyval" where
  "nest_list 0 v = v"
| "nest_list (Suc n) v = PList [nest_list n v]"

fun list_depth :: "pyval \<Rightarrow> nat" where
  "list_depth (PList xs) = Suc (foldr max (map list_depth xs) 0)"
| "list_depth v = 0"

fun mapping_depth :: "pyval \<Rightarrow> nat" where
  "mapping_depth (PDict kvs) = Suc (foldr max (map (\<lambda>kv. mapping_depth (snd kv)) kvs) 0)"
| "mapping_depth v = 0"

text \<open>What \<^verbatim>\<open>add\<close> returns on a pair of integers.\<close>

definition add_result :: "pyval list \<Rightarrow> pyval" where
  "add_result vs = (case vs of [PInt a, PInt b] \<Rightarrow> PInt (a + b) | _ \<Rightarrow> PNone)"

section \<open>Properties\<close>

subsection \<open>Basic facts\<close>

declare to_vectorize.simps [simp del]
declare to_vectorize_param.simps [simp del]
declare to_vectorize_multi.simps [simp del]
declare to_vectorize_multi_param.simps [simp del]

lemmas type_tables =
  TYPES_def BASE_TYPES_def NUMPY_TYPES_def PANDAS_TYPES_def DATETIME_TYPES_def
  CONTAINER_TYPES_def

lemma bind_ret [simp]: "bind (ret v) f = f v"
  by (simp add: bind_def ret_def split: prod.splits)

lemma bind_raise [simp]: "bind (raise e) f = raise e"
  by (simp add: bind_def raise_def)

lemma bind_lift_Inr [simp]: "bind (lift (Inr v)) f = f v"
  by (simp add: bind_def lift_def split: prod.splits)

lemma bind_lift_Inl [simp]: "bind (lift (Inl e)) f = raise e"
  by (simp add: bind_def lift_def raise_def)

lemma bind_pair_Inr [simp]: "bind (ev, Inr v) f = (ev @ fst (f v), snd (f v))"
  by (simp add: bind_def split: prod.splits)

lemma bind_pair_Inl [simp]: "bind (ev, Inl e) f = (ev, Inl e)"
  by (simp add: bind_def)

lemma logger_catch_Inr [simp]: "logger_catch (ev, Inr v) = (ev, Inr v)"
  by (simp add: logger_catch_def)

lemma logger_catch_Inl [simp]:
  "logger_catch (ev, Inl e) = (if is_Exception e then (ev @ [Logged e], Inr PNone) else (ev, Inl e))"
  by (simp add: logger_catch_def)

lemma logger_catch_ret [simp]: "logger_catch (ret v) = ret v"
  by (simp add: ret_def)

lemma container_not_leaf [simp]:
  "\<not> isinstance (PList xs) TYPES" "\<not> isinstance (PTuple xs) TYPES"
  "\<not> isinstance (PSet xs) TYPES" "\<not> isinstance (PDict kvs) TYPES"
  "\<not> isinstance (PNdarray sh d) TYPES" "\<not> isinstance (PDataFrame n cols) TYPES"
  "\<not> isinstance (PSeries kvs) TYPES" "\<not> isinstance PNone TYPES"
  by (simp_all add: isinstance_def type_tables)

lemma container_is_container [simp]:
  "isinstance (PList xs) CONTAINER_TYPES" "isinstance (PTuple xs) CONTAINER_TYPES"
  "isinstance (PSet xs) CONTAINER_TYPES" "isinstance (PDict kvs) CONTAINER_TYPES"
  "isinstance (PNdarray sh d) CONTAINER_TYPES" "isinstance (PDataFrame n cols) CONTAINER_TYPES"
  "isinstance (PSeries kvs) CONTAINER_TYPES"
  by (simp_all add: isinstance_def type_tables)

lemma isinstance_single [simp]: "isinstance v [c] = (class_of v = c)"
  by (simp add: isinstance_def)

lemma base_leaves [simp]:
  "isinstance (PInt i) TYPES" "isinstance (PBool b) TYPES" "isinstance (PStr s) TYPES"
  "isinstance (PBytes s) TYPES" "isinstance (PByteArray s) TYPES"
  "isinstance (PMemoryView s) TYPES"
  by (simp_all add: isinstance_def type_tables)

lemma to_vectorize_leaf:
  "isinstance obj TYPES \<Longrightarrow> to_vectorize h fn obj = logger_catch (invoke fn [] [obj])"
  by (simp add: to_vectorize.simps)

lemma to_vectorize_Series: "to_vectorize h fn (PSeries kvs) = ret PNone"
  by (simp add: to_vectorize.simps[of _ _ "PSeries kvs"])

lemma to_vectorize_Dict:
  "to_vectorize h fn (PDict kvs) = logger_catch
     (bind (for_each (\<lambda>kv. bind (invoke fn [] [snd kv]) (\<lambda>r. ret (fst kv, r))) kvs)
        (\<lambda>r. ret (dict_of_pairs h r)))"
  by (simp add: to_vectorize.simps[of _ _ "PDict kvs"] cond_expr_def)

lemma to_vectorize_Set:
  "to_vectorize h fn (PSet xs) = logger_catch
     (bind (to_vectorize h fn (PList xs)) (\<lambda>r. lift (py_set h r)))"
  by (simp add: to_vectorize.simps[of _ _ "PSet xs"] py_list_def)

lemma to_vectorize_Tuple:
  "to_vectorize h fn (PTuple xs) = logger_catch
     (bind (to_vectorize h fn (PList xs)) (\<lambda>r. lift (py_tuple r)))"
  by (simp add: to_vectorize.simps[of _ _ "PTuple xs"] py_list_def)

lemma to_vectorize_List:
  "to_vectorize h fn (PList xs) = logger_catch
     (bind (for_each (\<lambda>el. if isinstance el TYPES then invoke fn [] [el]
                            else to_vectorize h fn el) xs) (\<lambda>r. ret (PList r)))"
proof -
  have "all_types_same xs TYPES \<Longrightarrow>
        for_each (\<lambda>el. invoke fn [] [el]) xs =
        for_each (\<lambda>el. if isinstance el TYPES then invoke fn [] [el] else to_vectorize h fn el) xs"
    by (rule for_each_cong) (auto simp: all_types_same_def list_all_iff)
  then show ?thesis
    by (simp add: to_vectorize.simps[of _ _ "PList xs"] cond_expr_def)
qed

lemma for_each_success:
  "(\<And>x. x \<in> set xs \<Longrightarrow> g x = (ev x, Inr (h x))) \<Longrightarrow>
   for_each g xs = (concat (map ev xs), Inr (map h xs))"
proof (induction xs)
  case Nil
  show ?case by (simp add: ret_def)
next
  case (Cons x xs)
  then show ?case by (simp add: ret_def)
qed

lemma same_member_refl [simp]: "same_member h a a"
  by (simp add: same_member_def)

lemma no_dups_append:
  "no_dups h (xs @ ys) =
   (no_dups h xs \<and> no_dups h ys \<and> (\<forall>x \<in> set xs. \<forall>y \<in> set ys. \<not> same_member h x y))"
  by (induction xs) (auto simp: list_ex_iff)

lemma dict_set_fresh:
  "\<forall>k' \<in> set (map fst d). \<not> same_member h k' k \<Longrightarrow> dict_set h d k v = d @ [(k, v)]"
  by (induction d) auto

lemma foldl_dict_set_distinct:
  "no_dups h (map fst (d @ kvs)) \<Longrightarrow>
   foldl (\<lambda>d kv. dict_set h d (fst kv) (snd kv)) d kvs = d @ kvs"
proof (induction kvs arbitrary: d)
  case Nil
  show ?case by simp
next
  case (Cons kv kvs)
  from Cons.prems have "\<forall>k' \<in> set (map fst d). \<not> same_member h k' (fst kv)"
    by (simp add: no_dups_append)
  then have "dict_set h d (fst kv) (snd kv) = d @ [kv]"
    by (simp add: dict_set_fresh)
  with Cons show ?case by simp
qed

lemma dict_of_pairs_distinct:
  "no_dups h (map fst kvs) \<Longrightarrow> dict_of_pairs h kvs = PDict kvs"
  using foldl_dict_set_distinct[of h "[]" kvs] by (simp add: dict_of_pairs_def)

lemma set_add_no_dups: "no_dups h acc \<Longrightarrow> no_dups h (set_add h acc y)"
  by (auto simp: set_add_def list_ex_iff no_dups_append)

lemma foldl_set_add_no_dups: "no_dups h acc \<Longrightarrow> no_dups h (foldl (set_add h) acc ys)"
  by (induction ys arbitrary: acc) (simp_all add: set_add_no_dups)

lemma foldl_set_add_mono: "set acc \<subseteq> set (foldl (set_add h) acc ys)"
proof (induction ys arbitrary: acc)
  case Nil
  show ?case by simp
next
  case (Cons y ys)
  have "set acc \<subseteq> set (set_add h acc y)" by (auto simp: set_add_def)
  also have "\<dots> \<subseteq> set (foldl (set_add h) (set_add h acc y) ys)" by (rule Cons.IH)
  finally show ?case by simp
qed

lemma foldl_set_add_covers:
  "y \<in> set ys \<Longrightarrow> \<exists>z \<in> set (foldl (set_add h) acc ys). same_member h z y"
proof (induction ys arbitrary: acc)
  case Nil
  then show ?case by simp
next
  case (Cons a ys)
  show ?case
  proof (cases "y = a")
    case True
    have "\<exists>z \<in> set (set_add h acc a). same_member h z a"
      by (auto simp: set_add_def list_ex_iff)
    then obtain z where "z \<in> set (set_add h acc a)" "same_member h z a" by blast
    with True foldl_set_add_mono[of "set_add h acc a" h ys] show ?thesis
      by auto
  next
    case False
    with Cons.prems have "y \<in> set ys" by simp
    then show ?thesis using Cons.IH by simp
  qed
qed

lemma foldl_set_add_subset: "set (foldl (set_add h) acc ys) \<subseteq> set acc \<union> set ys"
proof (induction ys arbitrary: acc)
  case Nil
  show ?case by simp
next
  case (Cons y ys)
  have "set (foldl (set_add h) (set_add h acc y) ys) \<subseteq> set (set_add h acc y) \<union> set ys"
    by (rule Cons.IH)
  moreover have "set (set_add h acc y) \<subseteq> set acc \<union> {y}"
    by (auto simp: set_add_def)
  ultimately show ?case by auto
qed

lemma logger_catch_no_Exception: "is_Exception e \<Longrightarrow> snd (logger_catch m) \<noteq> Inl e"
  by (cases m; cases "snd m") (auto simp: logger_catch_def)

lemma logger_catch_raise [simp]:
  "logger_catch (raise e) = (if is_Exception e then ([Logged e], Inr PNone) else ([], Inl e))"
  by (simp add: raise_def)

lemma to_vectorize_param_leaf:
  "isinstance obj TYPES \<Longrightarrow>
   to_vectorize_param h fn obj params = logger_catch (invoke fn params [obj])"
  by (simp add: to_vectorize_param.simps)

lemma to_vectorize_param_Tuple:
  "to_vectorize_param h fn (PTuple xs) params = logger_catch
     (bind (to_vectorize_param h fn (PList xs) []) (\<lambda>r. lift (py_tuple r)))"
  by (simp add: to_vectorize_param.simps[of _ _ "PTuple xs"] py_list_def)

lemma to_vectorize_param_List:
  "to_vectorize_param h fn (PList xs) params = logger_catch
     (bind (for_each (\<lambda>el. if isinstance el TYPES then invoke fn params [el]
                            else to_vectorize_param h fn el []) xs) (\<lambda>r. ret (PList r)))"
proof -
  have "all_types_same xs TYPES \<Longrightarrow>
        for_each (\<lambda>el. invoke fn params [el]) xs =
        for_each (\<lambda>el. if isinstance el TYPES then invoke fn params [el]
                        else to_vectorize_param h fn el []) xs"
    by (rule for_each_cong) (auto simp: all_types_same_def list_all_iff)
  then show ?thesis
    by (simp add: to_vectorize_param.simps[of _ _ "PList xs"] cond_expr_def)
qed

lemma to_vectorize_multi_leaves:
  "all_types_same objects TYPES \<Longrightarrow>
   to_vectorize_multi h fn objects = logger_catch (invoke fn [] objects)"
  by (simp add: to_vectorize_multi.simps)

lemma to_vectorize_multi_param_leaves:
  "list_all (\<lambda>p. isinstance p TYPES) (map snd params) \<Longrightarrow> list_all (\<lambda>obj. isinstance obj TYPES) objects \<Longrightarrow>
   to_vectorize_multi_param h fn objects params = logger_catch (invoke fn params objects)"
  by (simp add: to_vectorize_multi_param.simps)

lemma concat_singletons: "concat (map (\<lambda>x. [g x]) xs) = map g xs"
  by (induction xs) auto

subsection \<open>Leaves and containers of the single-input map\<close>

text \<open>
  Claim C10. Strings, bytes, bytearrays and memory views are leaves: each of their
  classes is in \<open>BASE_TYPES\<close>, hence in \<open>TYPES\<close>, and \<^verbatim>\<open>map(f, s)\<close> on a string \<open>s\<close> (and
  on a value of the three other classes) makes exactly one call of the leaf function,
  with the whole value; whatever that call returns or raises goes through the logger
  wrapper.
\<close>

theorem strings_are_leaves:
  "set [T_str, T_bytes, T_bytearray, T_memoryview] \<subseteq> set BASE_TYPES \<and>
   isinstance (PStr s) TYPES \<and> isinstance (PBytes b) TYPES \<and>
   isinstance (PByteArray b) TYPES \<and> isinstance (PMemoryView b) TYPES \<and>
   vectorize h fn (PStr s) = logger_catch ([Call [] [PStr s]], fun_call fn [] [PStr s]) \<and>
   calls_of (fst (vectorize h fn (PStr s))) = [([], [PStr s])] \<and>
   calls_of (fst (vectorize h fn (PBytes b))) = [([], [PBytes b])] \<and>
   calls_of (fst (vectorize h fn (PByteArray b))) = [([], [PByteArray b])] \<and>
   calls_of (fst (vectorize h fn (PMemoryView b))) = [([], [PMemoryView b])]"
proof -
  have "calls_of (fst (vectorize h fn v)) = [([], [v])]" if "isinstance v TYPES" for v
    using that
    by (auto simp: vectorize_def to_vectorize_leaf invoke_def calls_of_def logger_catch_def
        split: sum.splits)
  then show ?thesis
    by (simp add: vectorize_def to_vectorize_leaf invoke_def BASE_TYPES_def)
qed

text \<open>
  Claim C9. \<^verbatim>\<open>pd.Series\<close> is in \<open>CONTAINER_TYPES\<close>, so a series passes the container test
  of the single-input map; it is not a leaf and none of the branches (list, tuple, set,
  dict, array, frame) matches it, so the call returns \<^verbatim>\<open>None\<close>: no call of the leaf
  function, nothing raised and nothing logged.
\<close>

theorem map_series_returns_None:
  "T_Series \<in> set CONTAINER_TYPES \<and> isinstance (PSeries kvs) CONTAINER_TYPES \<and>
   \<not> isinstance (PSeries kvs) TYPES \<and> vectorize h fn (PSeries kvs) = ([], Inr PNone)"
  by (simp add: vectorize_def to_vectorize_Series ret_def) (simp add: CONTAINER_TYPES_def)

text \<open>
  Claim C4. On a mapping (with pairwise different keys, as every dictionary has) the
  single-input map calls the leaf function once on each value, whole, in order, whatever
  the value is (a leaf, a list, a nested mapping), and returns the mapping of the same
  keys to the results: \<^verbatim>\<open>map(f, {a: 1, b: 2}) == {a: f(1), b: f(2)}\<close>. Here \<open>f v\<close> is what
  the leaf function returns on \<open>v\<close>.
\<close>

theorem map_mapping_applies_fn_to_values:
  assumes "no_dups h (map fst kvs)"
    and "\<forall>kv \<in> set kvs. fun_call fn [] [snd kv] = Inr (f (snd kv))"
  shows "vectorize h fn (PDict kvs) =
     (map (\<lambda>kv. Call [] [snd kv]) kvs, Inr (PDict (map (\<lambda>kv. (fst kv, f (snd kv))) kvs)))"
proof -
  have "for_each (\<lambda>kv. bind (invoke fn [] [snd kv]) (\<lambda>r. ret (fst kv, r))) kvs =
        (concat (map (\<lambda>kv. [Call [] [snd kv]]) kvs), Inr (map (\<lambda>kv. (fst kv, f (snd kv))) kvs))"
    using assms(2) by (intro for_each_success) (simp add: invoke_def ret_def)
  moreover have "dict_of_pairs h (map (\<lambda>kv. (fst kv, f (snd kv))) kvs) =
        PDict (map (\<lambda>kv. (fst kv, f (snd kv))) kvs)"
    using assms(1) by (intro dict_of_pairs_distinct) (simp add: comp_def)
  moreover have "concat (map (\<lambda>kv. [Call [] [snd kv]]) kvs) = map (\<lambda>kv. Call [] [snd kv]) kvs"
    by (induction kvs) auto
  ultimately show ?thesis
    by (simp add: vectorize_def to_vectorize_Dict ret_def)
qed

text \<open>The theorem at \<^verbatim>\<open>map(box, {'a': 1, 'b': {'c': [2]}})\<close>: the nested mapping is
  passed whole to \<^verbatim>\<open>box\<close>.\<close>

theorem map_mapping_applies_fn_to_values_witness:
  "no_dups example_host (map fst
      [(PStr ''a'', PInt 1), (PStr ''b'', PDict [(PStr ''c'', PList [PInt 2])])]) \<and>
   fun_call box [] [PInt 1] = Inr (PTuple [PInt 1]) \<and>
   fun_call box [] [PDict [(PStr ''c'', PList [PInt 2])]] =
     Inr (PTuple [PDict [(PStr ''c'', PList [PInt 2])]]) \<and>
   vectorize example_host box
     (PDict [(PStr ''a'', PInt 1), (PStr ''b'', PDict [(PStr ''c'', PList [PInt 2])])]) =
   ([Call [] [PInt 1], Call [] [PDict [(PStr ''c'', PList [PInt 2])]]],
    Inr (PDict [(PStr ''a'', PTuple [PInt 1]),
                (PStr ''b'', PTuple [PDict [(PStr ''c'', PList [PInt 2])]])]))"
proof -
  have d: "no_dups example_host (map fst
      [(PStr ''a'', PInt 1), (PStr ''b'', PDict [(PStr ''c'', PList [PInt 2])])])"
    by (simp add: same_member_def py_eq_def)
  have c: "\<forall>kv \<in> set [(PStr ''a'', PInt 1), (PStr ''b'', PDict [(PStr ''c'', PList [PInt 2])])].
      fun_call box [] [snd kv] = Inr (PTuple [snd kv])"
    by (simp add: box_def)
  show ?thesis
    using d c map_mapping_applies_fn_to_values [OF d c] by simp
qed

text \<open>
  Claim C8. On a set the single-input map maps the list of the elements and rebuilds a
  set from the resulting list: when that list \<open>ys\<close> is produced and its values are
  hashable, the result is the set of the values of \<open>ys\<close> with duplicates collapsed by
  value equality: its members are values of \<open>ys\<close>, no member is the same as (the same
  object as, or equal to) a later one, and every value of \<open>ys\<close> has a member that is the
  same. The equality is Python's. Between the built-in scalars it is fixed: two integers
  are equal when they are the same number, a boolean equals the integer 1 or 0 that it
  is, two strings are equal when they have the same characters, and an integer equals
  neither a string nor \<^verbatim>\<open>None\<close>. Between two different values of which one is a float, a
  numpy scalar or another value with an equality of its own, it is what the objects say
  (\<open>eq_of\<close> of the host). \<^verbatim>\<open>map(lambda x: 0, {1, 2, 3})\<close> is a set of size 1.
\<close>

theorem map_set_deduplicates:
  assumes "snd (vectorize h fn (PList xs)) = Inr (PList ys)"
    and "list_all (py_hashable h) ys"
  shows "snd (vectorize h fn (PSet xs)) = Inr (PSet (py_dedup h ys)) \<and>
         no_dups h (py_dedup h ys) \<and>
         (\<forall>y \<in> set ys. \<exists>z \<in> set (py_dedup h ys). same_member h z y) \<and>
         set (py_dedup h ys) \<subseteq> set ys \<and>
         same_member h (PInt i) (PInt j) = (i = j) \<and>
         same_member h (PBool b) (PInt i) = (i = (if b then 1 else 0)) \<and>
         same_member h (PInt i) (PBool b) = (i = (if b then 1 else 0)) \<and>
         same_member h (PStr s) (PStr t) = (s = t) \<and>
         \<not> same_member h (PInt i) (PStr s) \<and>
         \<not> same_member h (PInt i) PNone \<and>
         (a \<noteq> c \<and> \<not> (determined a \<and> determined c) \<longrightarrow>
            same_member h a c = eq_of h a c)"
proof -
  obtain ev where "to_vectorize h fn (PList xs) = (ev, Inr (PList ys))"
    using assms(1) by (cases "to_vectorize h fn (PList xs)") (simp add: vectorize_def)
  then have "snd (vectorize h fn (PSet xs)) = Inr (PSet (py_dedup h ys))"
    using assms(2) by (simp add: vectorize_def to_vectorize_Set lift_def py_set_def py_dedup_def)
  moreover have "no_dups h (py_dedup h ys)"
    unfolding py_dedup_def by (rule foldl_set_add_no_dups) simp
  moreover have "\<forall>y \<in> set ys. \<exists>z \<in> set (py_dedup h ys). same_member h z y"
    unfolding py_dedup_def by (blast intro: foldl_set_add_covers)
  moreover have "set (py_dedup h ys) \<subseteq> set ys"
    unfolding py_dedup_def using foldl_set_add_subset[of h "[]" ys] by simp
  moreover have "same_member h (PInt i) (PInt j) = (i = j)"
    "same_member h (PBool b) (PInt i) = (i = (if b then 1 else 0))"
    "same_member h (PInt i) (PBool b) = (i = (if b then 1 else 0))"
    "same_member h (PStr s) (PStr t) = (s = t)"
    "\<not> same_member h (PInt i) (PStr s)"
    "\<not> same_member h (PInt i) PNone"
    "a \<noteq> c \<and> \<not> (determined a \<and> determined c) \<longrightarrow> same_member h a c = eq_of h a c"
    by (auto simp: same_member_def py_eq_def)
  ultimately show ?thesis by blast
qed

text \<open>The theorem at \<^verbatim>\<open>map(lambda x: 0, {1, 2, 3})\<close>, whose result is \<^verbatim>\<open>{0}\<close>, and at
  \<^verbatim>\<open>map(lambda x: True if x == 1 else 1, {1, 2})\<close>, whose result is \<^verbatim>\<open>{True}\<close>: \<^verbatim>\<open>True\<close>
  and \<^verbatim>\<open>1\<close> are equal.\<close>

theorem map_set_deduplicates_witness:
  "snd (vectorize example_host zero_fn (PList [PInt 1, PInt 2, PInt 3])) =
     Inr (PList [PInt 0, PInt 0, PInt 0]) \<and>
   list_all (py_hashable example_host) [PInt 0, PInt 0, PInt 0] \<and>
   snd (vectorize example_host zero_fn (PSet [PInt 1, PInt 2, PInt 3])) = Inr (PSet [PInt 0]) \<and>
   length [PInt 0] = 1 \<and>
   snd (vectorize example_host one_fn (PList [PInt 1, PInt 2])) =
     Inr (PList [PBool True, PInt 1]) \<and>
   snd (vectorize example_host one_fn (PSet [PInt 1, PInt 2])) = Inr (PSet [PBool True])"
proof -
  have l: "snd (vectorize example_host zero_fn (PList [PInt 1, PInt 2, PInt 3])) =
     Inr (PList [PInt 0, PInt 0, PInt 0])"
    by (simp add: vectorize_def to_vectorize_List zero_fn_def invoke_def ret_def)
  have hs: "list_all (py_hashable example_host) [PInt 0, PInt 0, PInt 0]"
    by simp
  have d: "py_dedup example_host [PInt 0, PInt 0, PInt 0] = [PInt 0]"
    by (simp add: py_dedup_def set_add_def)
  have l': "snd (vectorize example_host one_fn (PList [PInt 1, PInt 2])) =
     Inr (PList [PBool True, PInt 1])"
    by (simp add: vectorize_def to_vectorize_List one_fn_def invoke_def ret_def)
  have hs': "list_all (py_hashable example_host) [PBool True, PInt 1]"
    by simp
  have d': "py_dedup example_host [PBool True, PInt 1] = [PBool True]"
    by (simp add: py_dedup_def set_add_def same_member_def py_eq_def)
  show ?thesis
    using l hs l' map_set_deduplicates [OF l hs] map_set_deduplicates [OF l' hs']
    by (simp add: d d')
qed

subsection \<open>Exceptions of the leaf function\<close>

text \<open>
  Claim C1, as the spec states it, fails: every \<^verbatim>\<open>to_vectorize\<close> is decorated with
  \<^verbatim>\<open>@logger.catch\<close>. With the leaf function that raises \<^verbatim>\<open>ValueError\<close>, \<^verbatim>\<open>map(boom, 1)\<close>
  calls it once, the exception is logged, and the call returns \<^verbatim>\<open>None\<close>: the exception
  does not reach the caller.
\<close>

theorem leaf_exception_does_not_propagate:
  "fun_call raise_value_error [] [PInt 1] = Inl (UserException ''ValueError'') \<and>
   vectorize example_host raise_value_error (PInt 1) =
     ([Call [] [PInt 1], Logged (UserException ''ValueError'')], Inr PNone) \<and>
   snd (vectorize example_host raise_value_error (PInt 1)) \<noteq> Inl (UserException ''ValueError'')"
  by (simp add: vectorize_def to_vectorize_leaf invoke_def raise_value_error_def)

text \<open>
  Claim C1, amended. An exception of the \<^verbatim>\<open>Exception\<close> hierarchy never leaves a call of
  \<^verbatim>\<open>map\<close>, \<^verbatim>\<open>map_with_params\<close>, \<^verbatim>\<open>zip\<close> or \<^verbatim>\<open>zip_with_params\<close>, whatever the input and
  the leaf function. When the leaf function raises such an exception on leaf input, the
  logger wrapper of that call catches it: the events are the one call and the log
  entry, and the call returns \<^verbatim>\<open>None\<close>.
\<close>

theorem exceptions_are_caught_by_logger:
  assumes "is_Exception e"
  shows "snd (vectorize h fn obj) \<noteq> Inl e \<and>
         snd (vectorize_param h fn obj params) \<noteq> Inl e \<and>
         snd (vectorize_multi h fn objects) \<noteq> Inl e \<and>
         snd (vectorize_multi_param h fn objects params) \<noteq> Inl e \<and>
         (isinstance obj TYPES \<and> fun_call fn [] [obj] = Inl e \<longrightarrow>
            vectorize h fn obj = ([Call [] [obj], Logged e], Inr PNone)) \<and>
         (isinstance obj TYPES \<and> fun_call fn params [obj] = Inl e \<longrightarrow>
            vectorize_param h fn obj params = ([Call params [obj], Logged e], Inr PNone)) \<and>
         (all_types_same objects TYPES \<and> fun_call fn [] objects = Inl e \<longrightarrow>
            vectorize_multi h fn objects = ([Call [] objects, Logged e], Inr PNone)) \<and>
         (list_all (\<lambda>p. isinstance p TYPES) (map snd params) \<and> all_types_same objects TYPES \<and>
          fun_call fn params objects = Inl e \<longrightarrow>
            vectorize_multi_param h fn objects params =
              ([Call params objects, Logged e], Inr PNone))"
proof -
  have 1: "snd (vectorize h fn obj) \<noteq> Inl e"
    unfolding vectorize_def
    by (subst to_vectorize.simps) (rule logger_catch_no_Exception[OF assms])
  have 2: "snd (vectorize_param h fn obj params) \<noteq> Inl e"
    unfolding vectorize_param_def
    by (subst to_vectorize_param.simps) (rule logger_catch_no_Exception[OF assms])
  have 3: "snd (vectorize_multi h fn objects) \<noteq> Inl e"
    unfolding vectorize_multi_def
    by (subst to_vectorize_multi.simps) (rule logger_catch_no_Exception[OF assms])
  have 4: "snd (vectorize_multi_param h fn objects params) \<noteq> Inl e"
    unfolding vectorize_multi_param_def
    by (subst to_vectorize_multi_param.simps) (rule logger_catch_no_Exception[OF assms])
  have 5: "isinstance obj TYPES \<and> fun_call fn [] [obj] = Inl e \<longrightarrow>
            vectorize h fn obj = ([Call [] [obj], Logged e], Inr PNone)"
    using assms by (simp add: vectorize_def to_vectorize_leaf invoke_def)
  have 6: "isinstance obj TYPES \<and> fun_call fn params [obj] = Inl e \<longrightarrow>
            vectorize_param h fn obj params = ([Call params [obj], Logged e], Inr PNone)"
    using assms by (simp add: vectorize_param_def to_vectorize_param_leaf invoke_def)
  have 7: "all_types_same objects TYPES \<and> fun_call fn [] objects = Inl e \<longrightarrow>
            vectorize_multi h fn objects = ([Call [] objects, Logged e], Inr PNone)"
    using assms by (simp add: vectorize_multi_def to_vectorize_multi_leaves invoke_def)
  have 8: "list_all (\<lambda>p. isinstance p TYPES) (map snd params) \<and> all_types_same objects TYPES \<and>
          fun_call fn params objects = Inl e \<longrightarrow>
            vectorize_multi_param h fn objects params =
              ([Call params objects, Logged e], Inr PNone)"
    using assms
    by (simp add: vectorize_multi_param_def to_vectorize_multi_param_leaves invoke_def
        all_types_same_def)
  from 1 2 3 4 5 6 7 8 show ?thesis by blast
qed

text \<open>The theorem at the leaf function that raises \<^verbatim>\<open>ValueError\<close>.\<close>

theorem exceptions_are_caught_by_logger_witness:
  "is_Exception (UserException ''ValueError'') \<and>
   isinstance (PInt 1) TYPES \<and> all_types_same [PInt 1, PInt 2] TYPES \<and>
   fun_call raise_value_error [] [PInt 1] = Inl (UserException ''ValueError'') \<and>
   fun_call raise_value_error [] [PInt 1, PInt 2] = Inl (UserException ''ValueError'') \<and>
   vectorize example_host raise_value_error (PInt 1) =
     ([Call [] [PInt 1], Logged (UserException ''ValueError'')], Inr PNone) \<and>
   vectorize_param example_host raise_value_error (PInt 1) [] =
     ([Call [] [PInt 1], Logged (UserException ''ValueError'')], Inr PNone) \<and>
   vectorize_multi example_host raise_value_error [PInt 1, PInt 2] =
     ([Call [] [PInt 1, PInt 2], Logged (UserException ''ValueError'')], Inr PNone) \<and>
   vectorize_multi_param example_host raise_value_error [PInt 1, PInt 2] [] =
     ([Call [] [PInt 1, PInt 2], Logged (UserException ''ValueError'')], Inr PNone) \<and>
   snd (vectorize example_host raise_value_error (PList [PInt 1])) \<noteq>
     Inl (UserException ''ValueError'')"
proof -
  have e: "is_Exception (UserException ''ValueError'')" by simp
  have l: "isinstance (PInt 1) TYPES" "all_types_same [PInt 1, PInt 2] TYPES"
    by (simp_all add: all_types_same_def)
  have c: "fun_call raise_value_error [] [PInt 1] = Inl (UserException ''ValueError'')"
    "fun_call raise_value_error [] [PInt 1, PInt 2] = Inl (UserException ''ValueError'')"
    by (simp_all add: raise_value_error_def)
  show ?thesis
    using e l c
      exceptions_are_caught_by_logger [OF e, of example_host raise_value_error "PInt 1" "[]" "[PInt 1, PInt 2]"]
      exceptions_are_caught_by_logger [OF e, of example_host raise_value_error "PList [PInt 1]" "[]" "[PInt 1, PInt 2]"]
    by simp
qed

text \<open>An exception outside the \<^verbatim>\<open>Exception\<close> hierarchy is not caught.\<close>

lemma non_exceptions_propagate:
  "\<not> is_Exception e \<Longrightarrow> isinstance obj TYPES \<Longrightarrow> fun_call fn [] [obj] = Inl e \<Longrightarrow>
   vectorize h fn obj = ([Call [] [obj]], Inl e)"
  by (simp add: vectorize_def to_vectorize_leaf invoke_def)

subsection \<open>Parameter forwarding of \<^verbatim>\<open>map_with_params\<close>\<close>

text \<open>On a list of leaves the parameters reach every call:
  \<^verbatim>\<open>map_with_params(f, [1, 2, 3], scale=2)\<close> calls \<^verbatim>\<open>f(1, scale=2)\<close>, \<^verbatim>\<open>f(2, scale=2)\<close>,
  \<^verbatim>\<open>f(3, scale=2)\<close>.\<close>

lemma params_forwarded_flat_list:
  assumes "list_all (\<lambda>x. isinstance x TYPES) xs"
    and "\<forall>x \<in> set xs. fun_call fn params [x] = Inr (f x)"
  shows "vectorize_param h fn (PList xs) params =
     (map (\<lambda>x. Call params [x]) xs, Inr (PList (map f xs)))"
proof -
  have "for_each (\<lambda>el. if isinstance el TYPES then invoke fn params [el]
                        else to_vectorize_param h fn el []) xs =
        (concat (map (\<lambda>x. [Call params [x]]) xs), Inr (map f xs))"
    using assms by (intro for_each_success) (simp add: invoke_def list_all_iff)
  then show ?thesis
    by (simp add: vectorize_param_def to_vectorize_param_List ret_def concat_singletons)
qed

text \<open>
  Claim C2 does not hold of the code beyond that: the recursive calls of
  \<^verbatim>\<open>vectorize_param\<close> pass no parameters. With \<^verbatim>\<open>def f(x, scale)\<close>,
  \<^verbatim>\<open>map_with_params(f, [1, [2, 3]], scale=2)\<close> calls \<^verbatim>\<open>f(1, scale=2)\<close> and then \<^verbatim>\<open>f(2)\<close>,
  whose \<^verbatim>\<open>TypeError\<close> is logged, and returns \<^verbatim>\<open>[2, None]\<close>. With
  \<^verbatim>\<open>def g(x, scale=1)\<close> the nested leaves are scaled by the default, and on a tuple
  no call receives the parameters.
\<close>

theorem map_with_params_drops_params_in_recursion:
  "vectorize_param example_host scale_fn (PList [PInt 1, PList [PInt 2, PInt 3]])
     [(''scale'', PInt 2)] =
     ([Call [(''scale'', PInt 2)] [PInt 1], Call [] [PInt 2],
       Logged (TypeError ''missing argument: scale'')],
      Inr (PList [PInt 2, PNone])) \<and>
   vectorize_param example_host scale_default (PList [PInt 1, PList [PInt 2, PInt 3]])
     [(''scale'', PInt 2)] =
     ([Call [(''scale'', PInt 2)] [PInt 1], Call [] [PInt 2], Call [] [PInt 3]],
      Inr (PList [PInt 2, PList [PInt 2, PInt 3]])) \<and>
   vectorize_param example_host scale_default (PTuple [PInt 1, PInt 2, PInt 3])
     [(''scale'', PInt 2)] =
     ([Call [] [PInt 1], Call [] [PInt 2], Call [] [PInt 3]],
      Inr (PTuple [PInt 1, PInt 2, PInt 3]))"
  by (simp add: vectorize_param_def to_vectorize_param_List to_vectorize_param_Tuple
      invoke_def ret_def lift_def py_tuple_def scale_fn_def scale_default_def)

subsection \<open>Facts about the multi-input zip\<close>

lemma bind_e_Inr [simp]: "bind_e (Inr v) f = f v"
  by (simp add: bind_e_def)

lemma bind_e_Inl [simp]: "bind_e (Inl e) f = Inl e"
  by (simp add: bind_e_def)

lemma map_m_success:
  "(\<And>x. x \<in> set xs \<Longrightarrow> g x = Inr (h x)) \<Longrightarrow> map_m g xs = Inr (map h xs)"
  by (induction xs) simp_all

lemma nth_m_Cons_0 [simp]: "nth_m (x # xs) 0 = Inr x"
  by (simp add: nth_m_def)

lemma all_same_eq:
  assumes "\<And>obj. obj \<in> set (first # rest) \<Longrightarrow> g obj = Inr (h obj)"
  shows "all_same g (first # rest) = Inr (list_all (\<lambda>obj. h obj = h first) (first # rest))"
proof -
  have "map_m (\<lambda>obj. bind_e (g obj) (\<lambda>a. bind_e (nth_m (first # rest) 0) (\<lambda>first.
           bind_e (g first) (\<lambda>b. Inr (a = b))))) (first # rest) =
        Inr (map (\<lambda>obj. h obj = h first) (first # rest))"
    by (rule map_m_success) (simp add: assms)
  then show ?thesis
    by (simp add: all_same_def list_all_iff)
qed

lemma all_same_mismatch:
  assumes "\<And>obj. obj \<in> set (first # rest) \<Longrightarrow> g obj = Inr (h obj)"
    and "\<exists>obj \<in> set rest. h obj \<noteq> h first"
  shows "all_same g (first # rest) = Inr False"
proof -
  have "all_same g (first # rest) = Inr (list_all (\<lambda>obj. h obj = h first) (first # rest))"
    using assms(1) by (rule all_same_eq)
  moreover have "\<not> list_all (\<lambda>obj. h obj = h first) (first # rest)"
    using assms(2) by (auto simp: list_all_iff)
  ultimately show ?thesis by simp
qed

lemma py_len_shape:
  "class_of obj \<in> {T_list, T_tuple, T_set} \<Longrightarrow> py_len obj = Inr (hd (spec_shape obj))"
  by (cases obj) auto

lemma keys_shape:
  "class_of obj = T_dict \<Longrightarrow>
   bind_e (dict_keys obj) (\<lambda>ks. Inr (length ks)) = Inr (hd (spec_shape obj))"
  by (cases obj) auto

lemma np_shape_shape: "class_of obj = T_ndarray \<Longrightarrow> np_shape obj = Inr (spec_shape obj)"
  by (cases obj) auto

lemma attr_shape_shape:
  "class_of obj \<in> {T_DataFrame, T_Series} \<Longrightarrow> attr_shape obj = Inr (spec_shape obj)"
  by (cases obj) auto

lemma hd_shape_eq:
  "class_of a \<in> {T_list, T_tuple, T_set, T_dict} \<Longrightarrow> class_of b = class_of a \<Longrightarrow>
   (hd (spec_shape a) = hd (spec_shape b)) = (spec_shape a = spec_shape b)"
proof -
  assume a: "class_of a \<in> {T_list, T_tuple, T_set, T_dict}" and b: "class_of b = class_of a"
  from a obtain n where n: "spec_shape a = [n]" by (cases a) auto
  from a b obtain m where m: "spec_shape b = [m]" by (cases b) auto
  from n m show ?thesis by auto
qed

lemma container_class_not_leaf:
  "class_of obj \<in> set CONTAINER_TYPES \<Longrightarrow> \<not> isinstance obj TYPES"
  by (auto simp: isinstance_def type_tables)

lemma argument_consistency_same_class:
  assumes "class_of first \<in> set CONTAINER_TYPES" and "\<forall>obj \<in> set rest. class_of obj = class_of first"
  shows "argument_consistency (first # rest) CONTAINER_TYPES"
  using assms unfolding argument_consistency_def list_ex_iff list_all_iff
  by (intro bexI[of _ "class_of first"]) auto

lemma shape_check_fails:
  assumes "class_of first \<in> set CONTAINER_TYPES"
    and "\<forall>obj \<in> set rest. class_of obj = class_of first"
    and "\<exists>obj \<in> set rest. spec_shape obj \<noteq> spec_shape first"
  shows "class_of first \<in> {T_list, T_tuple, T_set} \<Longrightarrow> all_same py_len (first # rest) = Inr False"
    and "class_of first = T_dict \<Longrightarrow>
         all_same (\<lambda>obj. bind_e (dict_keys obj) (\<lambda>ks. Inr (length ks))) (first # rest) = Inr False"
    and "class_of first = T_ndarray \<Longrightarrow> all_same np_shape (first # rest) = Inr False"
    and "class_of first \<in> {T_DataFrame, T_Series} \<Longrightarrow> all_same attr_shape (first # rest) = Inr False"
proof -
  have cls: "class_of obj = class_of first" if "obj \<in> set (first # rest)" for obj
    using that assms(2) by auto
  from assms(3) obtain bad where bad: "bad \<in> set rest" "spec_shape bad \<noteq> spec_shape first"
    by blast
  have hd_bad: "hd (spec_shape bad) \<noteq> hd (spec_shape first)"
    if "class_of first \<in> {T_list, T_tuple, T_set, T_dict}"
  proof -
    have "class_of bad = class_of first" using bad(1) assms(2) by blast
    with that have "(hd (spec_shape first) = hd (spec_shape bad)) = (spec_shape first = spec_shape bad)"
      by (rule hd_shape_eq)
    with bad(2) show ?thesis by auto
  qed
  show "all_same py_len (first # rest) = Inr False" if c: "class_of first \<in> {T_list, T_tuple, T_set}"
  proof (rule all_same_mismatch[where h = "\<lambda>obj. hd (spec_shape obj)"])
    fix obj assume "obj \<in> set (first # rest)"
    then have "class_of obj = class_of first" by (rule cls)
    with c have "class_of obj \<in> {T_list, T_tuple, T_set}" by simp
    then show "py_len obj = Inr (hd (spec_shape obj))" by (rule py_len_shape)
  next
    from c have "class_of first \<in> {T_list, T_tuple, T_set, T_dict}" by auto
    then have "hd (spec_shape bad) \<noteq> hd (spec_shape first)" by (rule hd_bad)
    with bad(1) show "\<exists>obj\<in>set rest. hd (spec_shape obj) \<noteq> hd (spec_shape first)" by blast
  qed
  show "all_same (\<lambda>obj. bind_e (dict_keys obj) (\<lambda>ks. Inr (length ks))) (first # rest) = Inr False"
    if c: "class_of first = T_dict"
  proof (rule all_same_mismatch[where h = "\<lambda>obj. hd (spec_shape obj)"])
    fix obj assume "obj \<in> set (first # rest)"
    then have "class_of obj = class_of first" by (rule cls)
    with c have "class_of obj = T_dict" by simp
    then show "bind_e (dict_keys obj) (\<lambda>ks. Inr (length ks)) = Inr (hd (spec_shape obj))"
      by (rule keys_shape)
  next
    from c have "class_of first \<in> {T_list, T_tuple, T_set, T_dict}" by auto
    then have "hd (spec_shape bad) \<noteq> hd (spec_shape first)" by (rule hd_bad)
    with bad(1) show "\<exists>obj\<in>set rest. hd (spec_shape obj) \<noteq> hd (spec_shape first)" by blast
  qed
  show "all_same np_shape (first # rest) = Inr False" if c: "class_of first = T_ndarray"
  proof (rule all_same_mismatch[where h = spec_shape])
    fix obj assume "obj \<in> set (first # rest)"
    then have "class_of obj = class_of first" by (rule cls)
    with c have "class_of obj = T_ndarray" by simp
    then show "np_shape obj = Inr (spec_shape obj)" by (rule np_shape_shape)
  next
    from bad show "\<exists>obj\<in>set rest. spec_shape obj \<noteq> spec_shape first" by blast
  qed
  show "all_same attr_shape (first # rest) = Inr False" if c: "class_of first \<in> {T_DataFrame, T_Series}"
  proof (rule all_same_mismatch[where h = spec_shape])
    fix obj assume "obj \<in> set (first # rest)"
    then have "class_of obj = class_of first" by (rule cls)
    with c have "class_of obj \<in> {T_DataFrame, T_Series}" by simp
    then show "attr_shape obj = Inr (spec_shape obj)" by (rule attr_shape_shape)
  next
    from bad show "\<exists>obj\<in>set rest. spec_shape obj \<noteq> spec_shape first" by blast
  qed
qed

lemma container_class_cases:
  assumes "class_of first \<in> set CONTAINER_TYPES"
  obtains "class_of first = T_list" | "class_of first = T_tuple"
    | "class_of first = T_set" | "class_of first = T_dict" | "class_of first = T_ndarray"
    | "class_of first = T_DataFrame" | "class_of first = T_Series"
  using assms by (auto simp: CONTAINER_TYPES_def)

lemma map_m_map_success:
  "(\<And>x. x \<in> set xs \<Longrightarrow> g (c x) = Inr (h x)) \<Longrightarrow> map_m g (map c xs) = Inr (map h xs)"
  by (induction xs) simp_all

lemma get_section_dicts:
  assumes "\<forall>kvs \<in> set kvss. length kvs = n" and "i < n"
  shows "get_section (map PDict kvss) i ''dict'' = Inr (keys_at kvss i, values_at kvss i)"
proof -
  have k: "map_m (\<lambda>obj. bind_e (dict_keys obj) (\<lambda>ks. nth_m ks i)) (map PDict kvss) =
           Inr (map (\<lambda>kvs. fst (kvs ! i)) kvss)"
    using assms by (intro map_m_map_success) (simp add: nth_m_def)
  have v: "map_m (\<lambda>obj. bind_e (dict_values obj) (\<lambda>vs. nth_m vs i)) (map PDict kvss) =
           Inr (map (\<lambda>kvs. snd (kvs ! i)) kvss)"
    using assms by (intro map_m_map_success) (simp add: nth_m_def)
  show ?thesis
    by (simp add: get_section_def k v keys_at_def values_at_def)
qed

lemma all_same_dicts:
  assumes "\<forall>kvs \<in> set (kvs0 # kvss). length kvs = n"
  shows "all_same (\<lambda>obj. bind_e (dict_keys obj) (\<lambda>ks. Inr (length ks))) (map PDict (kvs0 # kvss)) = Inr True"
proof -
  have "all_same (\<lambda>obj. bind_e (dict_keys obj) (\<lambda>ks. Inr (length ks))) (PDict kvs0 # map PDict kvss) =
        Inr (list_all (\<lambda>obj. hd (spec_shape obj) = hd (spec_shape (PDict kvs0))) (PDict kvs0 # map PDict kvss))"
    by (rule all_same_eq) auto
  moreover have "list_all (\<lambda>obj. hd (spec_shape obj) = hd (spec_shape (PDict kvs0))) (PDict kvs0 # map PDict kvss)"
    using assms by (auto simp: list_all_iff)
  ultimately show ?thesis by simp
qed

lemma to_vectorize_multi_dicts:
  assumes "\<forall>kvs \<in> set (kvs0 # kvss). length kvs = n"
  shows "to_vectorize_multi h fn (map PDict (kvs0 # kvss)) = logger_catch
     (bind (for_each (\<lambda>i. bind (if all_types_same (values_at (kvs0 # kvss) i) TYPES
                                   then invoke fn [] (values_at (kvs0 # kvss) i)
                                 else to_vectorize_multi h fn (values_at (kvs0 # kvss) i))
                            (\<lambda>r. ret (synth_key h fn (keys_at (kvs0 # kvss) i), r))) [0..<n])
        (\<lambda>r. ret (dict_of_pairs h r)))"
proof -
  have n: "length kvs0 = n" using assms by simp
  have loop: "for_each (\<lambda>i. bind (lift (get_section (map PDict (kvs0 # kvss)) i ''dict'')) (\<lambda>sec.
                bind (if list_all (\<lambda>element. isinstance element TYPES) (snd sec)
                        then invoke fn [] (snd sec)
                      else to_vectorize_multi h fn (snd sec))
                  (\<lambda>r. ret (PStr (fun_name fn @ py_str h (PList (fst sec))), r)))) [0..<n] =
        for_each (\<lambda>i. bind (if all_types_same (values_at (kvs0 # kvss) i) TYPES
                                   then invoke fn [] (values_at (kvs0 # kvss) i)
                                 else to_vectorize_multi h fn (values_at (kvs0 # kvss) i))
                            (\<lambda>r. ret (synth_key h fn (keys_at (kvs0 # kvss) i), r))) [0..<n]"
  proof (rule for_each_cong[OF refl])
    fix i assume "i \<in> set [0..<n]"
    then have "i < n" by simp
    with assms have "get_section (map PDict (kvs0 # kvss)) i ''dict'' =
                     Inr (keys_at (kvs0 # kvss) i, values_at (kvs0 # kvss) i)"
      by (rule get_section_dicts)
    then show "bind (lift (get_section (map PDict (kvs0 # kvss)) i ''dict'')) (\<lambda>sec.
                bind (if list_all (\<lambda>element. isinstance element TYPES) (snd sec)
                        then invoke fn [] (snd sec)
                      else to_vectorize_multi h fn (snd sec))
                  (\<lambda>r. ret (PStr (fun_name fn @ py_str h (PList (fst sec))), r))) =
          bind (if all_types_same (values_at (kvs0 # kvss) i) TYPES
                                   then invoke fn [] (values_at (kvs0 # kvss) i)
                                 else to_vectorize_multi h fn (values_at (kvs0 # kvss) i))
                            (\<lambda>r. ret (synth_key h fn (keys_at (kvs0 # kvss) i), r))"
      by (simp add: all_types_same_def synth_key_def)
  qed
  have nl: "\<not> all_types_same (PDict kvs0 # map PDict kvss) TYPES"
    by (simp add: all_types_same_def)
  have ac: "argument_consistency (PDict kvs0 # map PDict kvss) CONTAINER_TYPES"
    by (rule argument_consistency_same_class) (auto simp: CONTAINER_TYPES_def)
  have chk: "all_same (\<lambda>obj. bind_e (dict_keys obj) (\<lambda>ks. Inr (length ks))) (PDict kvs0 # map PDict kvss) = Inr True"
    using all_same_dicts[OF assms] by simp
  show ?thesis
    using loop
    by (simp add: to_vectorize_multi.simps[of h fn "PDict kvs0 # map PDict kvss"] nl ac chk n)
qed

lemma to_vectorize_multi_param_dicts:
  assumes "\<forall>kvs \<in> set (kvs0 # kvss). length kvs = n"
    and "all_types_same (map snd params) TYPES"
  shows "to_vectorize_multi_param h fn (map PDict (kvs0 # kvss)) params = logger_catch
     (bind (for_each (\<lambda>i. bind (if all_types_same (values_at (kvs0 # kvss) i) TYPES
                                   then invoke fn params (values_at (kvs0 # kvss) i)
                                 else to_vectorize_multi_param h fn (values_at (kvs0 # kvss) i) params)
                            (\<lambda>r. ret (synth_key h fn (keys_at (kvs0 # kvss) i), r))) [0..<n])
        (\<lambda>r. ret (dict_of_pairs h r)))"
proof -
  have n: "length kvs0 = n" using assms by simp
  have loop: "for_each (\<lambda>i. bind (lift (get_section (map PDict (kvs0 # kvss)) i ''dict'')) (\<lambda>sec.
                bind (if dtype_consistency_in_container (snd sec) TYPES
                        then invoke fn params (snd sec)
                      else to_vectorize_multi_param h fn (snd sec) params)
                  (\<lambda>r. ret (PStr (fun_name fn @ py_str h (PList (fst sec))), r)))) [0..<n] =
        for_each (\<lambda>i. bind (if all_types_same (values_at (kvs0 # kvss) i) TYPES
                                   then invoke fn params (values_at (kvs0 # kvss) i)
                                 else to_vectorize_multi_param h fn (values_at (kvs0 # kvss) i) params)
                            (\<lambda>r. ret (synth_key h fn (keys_at (kvs0 # kvss) i), r))) [0..<n]"
  proof (rule for_each_cong[OF refl])
    fix i assume "i \<in> set [0..<n]"
    then have "i < n" by simp
    with assms(1) have "get_section (map PDict (kvs0 # kvss)) i ''dict'' =
                     Inr (keys_at (kvs0 # kvss) i, values_at (kvs0 # kvss) i)"
      by (rule get_section_dicts)
    then show "bind (lift (get_section (map PDict (kvs0 # kvss)) i ''dict'')) (\<lambda>sec.
                bind (if dtype_consistency_in_container (snd sec) TYPES
                        then invoke fn params (snd sec)
                      else to_vectorize_multi_param h fn (snd sec) params)
                  (\<lambda>r. ret (PStr (fun_name fn @ py_str h (PList (fst sec))), r))) =
          bind (if all_types_same (values_at (kvs0 # kvss) i) TYPES
                                   then invoke fn params (values_at (kvs0 # kvss) i)
                                 else to_vectorize_multi_param h fn (values_at (kvs0 # kvss) i) params)
                            (\<lambda>r. ret (synth_key h fn (keys_at (kvs0 # kvss) i), r))"
      by (simp add: all_types_same_def dtype_consistency_in_container_def synth_key_def)
  qed
  have nl: "\<not> all_types_same (PDict kvs0 # map PDict kvss) TYPES"
    by (simp add: all_types_same_def)
  have ac: "argument_consistency (PDict kvs0 # map PDict kvss) CONTAINER_TYPES"
    by (rule argument_consistency_same_class) (auto simp: CONTAINER_TYPES_def)
  have chk: "all_same (\<lambda>obj. bind_e (dict_keys obj) (\<lambda>ks. Inr (length ks))) (PDict kvs0 # map PDict kvss) = Inr True"
    using all_same_dicts[OF assms(1)] by simp
  note unfolded = to_vectorize_multi_param.simps[of h fn "PDict kvs0 # map PDict kvss" params,
        folded argument_consistency_def all_types_same_def]
  show ?thesis
    using loop
    by (simp add: unfolded nl ac chk n assms(2) len_consistency_def)
qed

lemma add_simps:
  "fun_name add = ''add''" "fun_call add kw [PInt a, PInt b] = Inr (PInt (a + b))"
  by (simp_all add: add_def)

lemma repr_examples:
  "py_repr h (PList [PStr ''a'', PStr ''a'']) = ''['a', 'a']''"
  "py_repr h (PList [PStr ''b'', PStr ''b'']) = ''['b', 'b']''"
  "py_repr h (PList [PStr ''x'', PStr ''x'']) = ''['x', 'x']''"
  "py_repr h (PList [PStr ''y'', PStr ''y'']) = ''['y', 'y']''"
  "py_repr h (PList [PStr ''z'', PStr ''w'']) = ''['z', 'w']''"
  by (simp_all add: str_repr_def escape_char_def is_ascii_def Let_def)

subsection \<open>Shape mismatch in the zip\<close>

text \<open>
  Claim C5, as the spec states it, fails: \<^verbatim>\<open>zip(add, [1, 2, 3], [1, 2])\<close> raises
  \<^verbatim>\<open>TypeError(ALL_ARGUMENTS)\<close> inside \<^verbatim>\<open>to_vectorize\<close>, the logger wrapper catches it, and
  the call returns \<^verbatim>\<open>None\<close>; nothing is raised to the caller. When the mismatch is one
  level down, the inner call returns \<^verbatim>\<open>None\<close> and the outer call returns \<^verbatim>\<open>[None]\<close>.
\<close>

theorem zip_shape_mismatch_returns_None:
  "snd (vectorize_multi example_host add [PList [PInt 1, PInt 2, PInt 3], PList [PInt 1, PInt 2]]) =
     Inr PNone \<and>
   vectorize_multi example_host add
     [PList [PList [PInt 1, PInt 2, PInt 3]], PList [PList [PInt 1, PInt 2]]] =
     ([Logged (TypeError ''All arguments should have the same shape.'')], Inr (PList [PNone]))"
proof -
  have top: "to_vectorize_multi example_host add [PList [PInt 1, PInt 2, PInt 3], PList [PInt 1, PInt 2]] =
     ([Logged (TypeError ''All arguments should have the same shape.'')], Inr PNone)"
    by (simp add: to_vectorize_multi.simps[of _ _ "[PList [PInt 1, PInt 2, PInt 3], PList [PInt 1, PInt 2]]"]
        all_types_same_def argument_consistency_def CONTAINER_TYPES_def len_consistency_def
        all_same_def ALL_ARGUMENTS_def)
  have "to_vectorize_multi example_host add
     [PList [PList [PInt 1, PInt 2, PInt 3]], PList [PList [PInt 1, PInt 2]]] =
     ([Logged (TypeError ''All arguments should have the same shape.'')], Inr (PList [PNone]))"
    by (simp add: to_vectorize_multi.simps[of _ _ "[PList [PList [PInt 1, PInt 2, PInt 3]], PList [PList [PInt 1, PInt 2]]]"]
        all_types_same_def argument_consistency_def CONTAINER_TYPES_def len_consistency_def
        all_same_def get_section_def top ret_def)
  with top show ?thesis
    by (simp add: vectorize_multi_def)
qed

text \<open>
  Claim C5, amended. When the inputs of a zip call share a container class and the shape
  of one of them differs from the shape of the first (length of lists, tuples and sets,
  number of keys of mappings, dimensional shape of arrays, frames and series), the call
  makes no call of the leaf function, logs \<^verbatim>\<open>TypeError(ALL_ARGUMENTS)\<close> and returns
  \<^verbatim>\<open>None\<close>; so does \<^verbatim>\<open>zip_with_params\<close> when its parameters are leaves.
\<close>

theorem zip_shape_mismatch_is_logged:
  assumes "class_of first \<in> set CONTAINER_TYPES"
    and "\<forall>obj \<in> set rest. class_of obj = class_of first"
    and "\<exists>obj \<in> set rest. spec_shape obj \<noteq> spec_shape first"
  shows "vectorize_multi h fn (first # rest) = ([Logged (TypeError ALL_ARGUMENTS)], Inr PNone) \<and>
         (list_all (\<lambda>p. isinstance p TYPES) (map snd params) \<longrightarrow>
          vectorize_multi_param h fn (first # rest) params =
            ([Logged (TypeError ALL_ARGUMENTS)], Inr PNone))"
proof -
  note chk = shape_check_fails[OF assms]
  have nl: "\<not> all_types_same (first # rest) TYPES"
    using container_class_not_leaf[OF assms(1)] by (simp add: all_types_same_def)
  have ac: "argument_consistency (first # rest) CONTAINER_TYPES"
    using assms(1,2) by (rule argument_consistency_same_class)
  have "to_vectorize_multi h fn (first # rest) = ([Logged (TypeError ALL_ARGUMENTS)], Inr PNone)"
    using assms(1)
    by (cases rule: container_class_cases)
      (simp_all add: to_vectorize_multi.simps[of h fn "first # rest"] nl ac chk
        len_consistency_def)
  moreover
  have "to_vectorize_multi_param h fn (first # rest) params =
      ([Logged (TypeError ALL_ARGUMENTS)], Inr PNone)"
    if p: "list_all (\<lambda>p. isinstance p TYPES) (map snd params)"
  proof -
    note unfolded = to_vectorize_multi_param.simps[of h fn "first # rest" params,
        folded argument_consistency_def all_types_same_def]
    have p': "all_types_same (map snd params) TYPES"
      using p by (simp add: all_types_same_def)
    from assms(1) show ?thesis
      by (cases rule: container_class_cases)
        (simp_all add: unfolded nl ac chk p' len_consistency_def)
  qed
  ultimately show ?thesis
    by (simp add: vectorize_multi_def vectorize_multi_param_def)
qed

text \<open>The theorem at \<^verbatim>\<open>zip(add, [1, 2, 3], [1, 2])\<close>.\<close>

theorem zip_shape_mismatch_is_logged_witness:
  "class_of (PList [PInt 1, PInt 2, PInt 3]) \<in> set CONTAINER_TYPES \<and>
   class_of (PList [PInt 1, PInt 2]) = class_of (PList [PInt 1, PInt 2, PInt 3]) \<and>
   spec_shape (PList [PInt 1, PInt 2]) \<noteq> spec_shape (PList [PInt 1, PInt 2, PInt 3]) \<and>
   vectorize_multi example_host add [PList [PInt 1, PInt 2, PInt 3], PList [PInt 1, PInt 2]] =
     ([Logged (TypeError ''All arguments should have the same shape.'')], Inr PNone) \<and>
   vectorize_multi_param example_host add [PList [PInt 1, PInt 2, PInt 3], PList [PInt 1, PInt 2]]
       [(''k'', PInt 0)] =
     ([Logged (TypeError ''All arguments should have the same shape.'')], Inr PNone)"
proof -
  have 1: "class_of (PList [PInt 1, PInt 2, PInt 3]) \<in> set CONTAINER_TYPES"
    by (simp add: CONTAINER_TYPES_def)
  have 2: "\<forall>obj \<in> set [PList [PInt 1, PInt 2]]. class_of obj = class_of (PList [PInt 1, PInt 2, PInt 3])"
    by simp
  have 3: "\<exists>obj \<in> set [PList [PInt 1, PInt 2]]. spec_shape obj \<noteq> spec_shape (PList [PInt 1, PInt 2, PInt 3])"
    by simp
  show ?thesis
    using 1 zip_shape_mismatch_is_logged [OF 1 2 3, of example_host add "[(''k'', PInt 0)]"]
    by (simp add: ALL_ARGUMENTS_def)
qed

subsection \<open>Synthesized keys of the zip on mappings\<close>

text \<open>
  Claim C7, as the spec states it, fails in its example: the keys of
  \<^verbatim>\<open>zip(add, {a: 1, b: 2}, {a: 10, b: 20})\<close> are not \<^verbatim>\<open>"add['a']"\<close> and \<^verbatim>\<open>"add['b']"\<close>.
\<close>

theorem zip_mapping_keys_name_every_input:
  "snd (vectorize_multi example_host add
     [PDict [(PStr ''a'', PInt 1), (PStr ''b'', PInt 2)],
      PDict [(PStr ''a'', PInt 10), (PStr ''b'', PInt 20)]]) \<noteq>
   Inr (PDict [(PStr ''add['a']'', PInt 11), (PStr ''add['b']'', PInt 22)])"
proof -
  let ?a = "[(PStr ''a'', PInt 1), (PStr ''b'', PInt 2)]"
  let ?b = "[(PStr ''a'', PInt 10), (PStr ''b'', PInt 20)]"
  have v: "values_at [?a, ?b] 0 = [PInt 1, PInt 10]" "values_at [?a, ?b] (Suc 0) = [PInt 2, PInt 20]"
    and k: "keys_at [?a, ?b] 0 = [PStr ''a'', PStr ''a'']" "keys_at [?a, ?b] (Suc 0) = [PStr ''b'', PStr ''b'']"
    by (simp_all add: values_at_def keys_at_def)
  have 1: "\<forall>kvs \<in> set [?a, ?b]. length kvs = 2" by simp
  have u: "[0..<2] = [0, Suc 0]" by (simp add: upt_rec)
  have "to_vectorize_multi example_host add (map PDict [?a, ?b]) =
   ([Call [] [PInt 1, PInt 10], Call [] [PInt 2, PInt 20]],
    Inr (PDict [(PStr ''add['a', 'a']'', PInt 11), (PStr ''add['b', 'b']'', PInt 22)]))"
    unfolding to_vectorize_multi_dicts[OF 1]
    by (simp add: u v k all_types_same_def invoke_def ret_def add_simps synth_key_def
        dict_of_pairs_def repr_examples same_member_def py_eq_def del: py_repr.simps)
  then show ?thesis
    by (simp add: vectorize_multi_def)
qed

text \<open>
  Claim C7, amended. For \<open>N\<close> mappings with \<open>n\<close> entries each whose values at every
  position are leaves, and a leaf function that returns \<open>f\<close> of its arguments, the zip
  calls the leaf function once per position on the values of all inputs there, and
  stores the result under the key that is the function's name followed by the string
  form of the list of the keys of all \<open>N\<close> inputs at that position. The entries are
  stored by dictionary assignment, in position order. The string form of the list is
  \<^verbatim>\<open>[\<close>, the \<^verbatim>\<open>repr\<close> of each key separated by a comma and a space, \<^verbatim>\<open>]\<close>; the \<^verbatim>\<open>repr\<close> of
  a key that is a float, a numpy scalar, a timestamp or another value whose text its
  class decides is the host's \<open>repr_of\<close>.
\<close>

theorem zip_mapping_keys_are_synthesized:
  assumes "\<forall>kvs \<in> set (kvs0 # kvss). length kvs = n"
    and "\<forall>i < n. all_types_same (values_at (kvs0 # kvss) i) TYPES"
    and "\<forall>i < n. fun_call fn [] (values_at (kvs0 # kvss) i) = Inr (f (values_at (kvs0 # kvss) i))"
  shows "vectorize_multi h fn (map PDict (kvs0 # kvss)) =
    (map (\<lambda>i. Call [] (values_at (kvs0 # kvss) i)) [0..<n],
     Inr (dict_of_pairs h (map (\<lambda>i. (PStr (fun_name fn @ py_str h (PList (keys_at (kvs0 # kvss) i))),
                                      f (values_at (kvs0 # kvss) i))) [0..<n])))"
proof -
  have "for_each (\<lambda>i. bind (if all_types_same (values_at (kvs0 # kvss) i) TYPES
                                   then invoke fn [] (values_at (kvs0 # kvss) i)
                                 else to_vectorize_multi h fn (values_at (kvs0 # kvss) i))
                            (\<lambda>r. ret (synth_key h fn (keys_at (kvs0 # kvss) i), r))) [0..<n] =
        (concat (map (\<lambda>i. [Call [] (values_at (kvs0 # kvss) i)]) [0..<n]),
         Inr (map (\<lambda>i. (synth_key h fn (keys_at (kvs0 # kvss) i), f (values_at (kvs0 # kvss) i))) [0..<n]))"
    using assms(2,3) by (intro for_each_success) (simp add: invoke_def ret_def)
  then show ?thesis
    unfolding vectorize_multi_def to_vectorize_multi_dicts[OF assms(1), of h fn]
    by (simp add: ret_def concat_singletons synth_key_def)
qed

text \<open>The theorem at \<^verbatim>\<open>zip(add, {a: 1, b: 2}, {a: 10, b: 20})\<close>: two entries, with keys
  \<^verbatim>\<open>"add['a', 'a']"\<close> and \<^verbatim>\<open>"add['b', 'b']"\<close> and values 11 and 22.\<close>

theorem zip_mapping_keys_are_synthesized_witness:
  "vectorize_multi example_host add
     [PDict [(PStr ''a'', PInt 1), (PStr ''b'', PInt 2)],
      PDict [(PStr ''a'', PInt 10), (PStr ''b'', PInt 20)]] =
   ([Call [] [PInt 1, PInt 10], Call [] [PInt 2, PInt 20]],
    Inr (PDict [(PStr ''add['a', 'a']'', PInt 11), (PStr ''add['b', 'b']'', PInt 22)]))"
proof -
  let ?a = "[(PStr ''a'', PInt 1), (PStr ''b'', PInt 2)]"
  let ?b = "[(PStr ''a'', PInt 10), (PStr ''b'', PInt 20)]"
  have v: "values_at [?a, ?b] 0 = [PInt 1, PInt 10]" "values_at [?a, ?b] (Suc 0) = [PInt 2, PInt 20]"
    and k: "keys_at [?a, ?b] 0 = [PStr ''a'', PStr ''a'']" "keys_at [?a, ?b] (Suc 0) = [PStr ''b'', PStr ''b'']"
    by (simp_all add: values_at_def keys_at_def)
  have 1: "\<forall>kvs \<in> set [?a, ?b]. length kvs = 2" by simp
  have 2: "\<forall>i < 2. all_types_same (values_at [?a, ?b] i) TYPES"
    by (simp add: less_2_cases_iff v all_types_same_def)
  have 3: "\<forall>i < 2. fun_call add [] (values_at [?a, ?b] i) = Inr (add_result (values_at [?a, ?b] i))"
    by (simp add: less_2_cases_iff v add_simps add_result_def)
  have u: "[0..<2] = [0, Suc 0]" by (simp add: upt_rec)
  show ?thesis
    using zip_mapping_keys_are_synthesized [OF 1 2 3, of example_host]
    by (simp add: u v k add_result_def add_simps repr_examples dict_of_pairs_def same_member_def py_eq_def
        del: py_repr.simps)
qed

subsection \<open>What reaches an iteration\<close>

text \<open>The value that \<^verbatim>\<open>tuple(...)\<close> and \<^verbatim>\<open>set(...)\<close> iterate over is what a call on a
  list, or on lists, returned: a list, or the \<^verbatim>\<open>None\<close> of a caught exception.\<close>

lemma to_vectorize_List_result:
  assumes "snd (to_vectorize h fn (PList xs)) = Inr r"
  shows "r = PNone \<or> (\<exists>ys. r = PList ys)"
proof -
  obtain ev res where m:
    "for_each (\<lambda>el. if isinstance el TYPES then invoke fn [] [el]
                     else to_vectorize h fn el) xs = (ev, res)"
    by (cases "for_each (\<lambda>el. if isinstance el TYPES then invoke fn [] [el]
                     else to_vectorize h fn el) xs")
  from assms show ?thesis
    by (cases res) (auto simp: to_vectorize_List m ret_def split: if_splits)
qed

lemma to_vectorize_param_List_result:
  assumes "snd (to_vectorize_param h fn (PList xs) params) = Inr r"
  shows "r = PNone \<or> (\<exists>ys. r = PList ys)"
proof -
  obtain ev res where m:
    "for_each (\<lambda>el. if isinstance el TYPES then invoke fn params [el]
                     else to_vectorize_param h fn el []) xs = (ev, res)"
    by (cases "for_each (\<lambda>el. if isinstance el TYPES then invoke fn params [el]
                     else to_vectorize_param h fn el []) xs")
  from assms show ?thesis
    by (cases res) (auto simp: to_vectorize_param_List m ret_def split: if_splits)
qed

lemma logger_catch_bind_result:
  assumes "snd (logger_catch (bind m (\<lambda>r. ret (PList r)))) = Inr r"
  shows "r = PNone \<or> (\<exists>ys. r = PList ys)"
proof -
  obtain ev res where "m = (ev, res)" by (cases m)
  with assms show ?thesis
    by (cases res) (auto simp: ret_def split: if_splits)
qed

lemma logger_catch_raise_result:
  "snd (logger_catch (raise e)) = Inr r \<Longrightarrow> r = PNone"
  by (auto split: if_splits)

lemma to_vectorize_multi_lists_result:
  assumes "snd (to_vectorize_multi h fn (PList xs # rest)) = Inr r"
  shows "r = PNone \<or> (\<exists>ys. r = PList ys)"
proof -
  have nl: "\<not> all_types_same (PList xs # rest) TYPES"
    by (simp add: all_types_same_def)
  show ?thesis
  proof (cases "argument_consistency (PList xs # rest) CONTAINER_TYPES")
    case False
    with assms nl show ?thesis
      by (auto simp: to_vectorize_multi.simps[of h fn "PList xs # rest"] split: if_splits)
  next
    case ac: True
    show ?thesis
    proof (cases "len_consistency (PList xs # rest) ''list''")
      case (Inl e)
      with assms nl ac show ?thesis
        by (auto simp: to_vectorize_multi.simps[of h fn "PList xs # rest"] split: if_splits)
    next
      case (Inr ok)
      show ?thesis
      proof (cases ok)
        case False
        with assms nl ac Inr show ?thesis
          by (auto simp: to_vectorize_multi.simps[of h fn "PList xs # rest"] split: if_splits)
      next
        case True
        with assms nl ac Inr show ?thesis
          by (simp add: to_vectorize_multi.simps[of h fn "PList xs # rest"])
            (erule logger_catch_bind_result)
      qed
    qed
  qed
qed

lemma to_vectorize_multi_param_lists_result:
  assumes "snd (to_vectorize_multi_param h fn (PList xs # rest) params) = Inr r"
  shows "r = PNone \<or> (\<exists>ys. r = PList ys)"
proof -
  note unfolded = to_vectorize_multi_param.simps[of h fn "PList xs # rest" params,
      folded argument_consistency_def all_types_same_def]
  have nl: "\<not> all_types_same (PList xs # rest) TYPES"
    by (simp add: all_types_same_def)
  show ?thesis
  proof (cases "all_types_same (map snd params) TYPES")
    case False
    with assms show ?thesis
      by (auto simp: unfolded split: if_splits)
  next
    case p: True
    show ?thesis
    proof (cases "argument_consistency (PList xs # rest) CONTAINER_TYPES")
      case False
      with assms nl p show ?thesis
        by (auto simp: unfolded split: if_splits)
    next
      case ac: True
      show ?thesis
      proof (cases "len_consistency (PList xs # rest) ''list''")
        case (Inl e)
        with assms nl ac p show ?thesis
          by (auto simp: unfolded split: if_splits)
      next
        case (Inr ok)
        show ?thesis
        proof (cases ok)
          case False
          with assms nl ac p Inr show ?thesis
            by (auto simp: unfolded split: if_splits)
        next
          case True
          with assms nl ac p Inr show ?thesis
            by (simp add: unfolded) (erule logger_catch_bind_result)
        qed
      qed
    qed
  qed
qed

subsection \<open>Nested mappings in the zip\<close>

lemma to_vectorize_multi_dicts_nonempty:
  assumes "kvss \<noteq> []" and "\<forall>kvs \<in> set kvss. length kvs = n"
  shows "to_vectorize_multi h fn (map PDict kvss) = logger_catch
     (bind (for_each (\<lambda>i. bind (if all_types_same (values_at kvss i) TYPES
                                   then invoke fn [] (values_at kvss i)
                                 else to_vectorize_multi h fn (values_at kvss i))
                            (\<lambda>r. ret (synth_key h fn (keys_at kvss i), r))) [0..<n])
        (\<lambda>r. ret (dict_of_pairs h r)))"
proof -
  from assms(1) obtain kvs0 rest where k: "kvss = kvs0 # rest" by (cases kvss) auto
  show ?thesis
    using assms(2) unfolding k by (rule to_vectorize_multi_dicts)
qed

lemma to_vectorize_multi_param_dicts_nonempty:
  assumes "kvss \<noteq> []" and "\<forall>kvs \<in> set kvss. length kvs = n"
    and "all_types_same (map snd params) TYPES"
  shows "to_vectorize_multi_param h fn (map PDict kvss) params = logger_catch
     (bind (for_each (\<lambda>i. bind (if all_types_same (values_at kvss i) TYPES
                                   then invoke fn params (values_at kvss i)
                                 else to_vectorize_multi_param h fn (values_at kvss i) params)
                            (\<lambda>r. ret (synth_key h fn (keys_at kvss i), r))) [0..<n])
        (\<lambda>r. ret (dict_of_pairs h r)))"
proof -
  from assms(1) obtain kvs0 rest where k: "kvss = kvs0 # rest" by (cases kvss) auto
  show ?thesis
    using assms(2,3) unfolding k by (rule to_vectorize_multi_param_dicts)
qed

lemma multi_leaf_dicts:
  assumes "kvss \<noteq> []" and "\<forall>kvs \<in> set kvss. length kvs = n"
    and "\<forall>i < n. all_types_same (values_at kvss i) TYPES"
    and "\<forall>i < n. fun_call fn [] (values_at kvss i) = Inr (f (values_at kvss i))"
  shows "to_vectorize_multi h fn (map PDict kvss) =
    (map (\<lambda>i. Call [] (values_at kvss i)) [0..<n],
     Inr (dict_of_pairs h (map (\<lambda>i. (synth_key h fn (keys_at kvss i), f (values_at kvss i)))
                             [0..<n])))"
proof -
  have "for_each (\<lambda>i. bind (if all_types_same (values_at kvss i) TYPES
                                   then invoke fn [] (values_at kvss i)
                                 else to_vectorize_multi h fn (values_at kvss i))
                            (\<lambda>r. ret (synth_key h fn (keys_at kvss i), r))) [0..<n] =
        (concat (map (\<lambda>i. [Call [] (values_at kvss i)]) [0..<n]),
         Inr (map (\<lambda>i. (synth_key h fn (keys_at kvss i), f (values_at kvss i))) [0..<n]))"
    using assms(3,4) by (intro for_each_success) (simp add: invoke_def ret_def)
  then show ?thesis
    unfolding to_vectorize_multi_dicts_nonempty[OF assms(1,2), of h fn]
    by (simp add: ret_def concat_singletons)
qed

lemma multi_param_leaf_dicts:
  assumes "kvss \<noteq> []" and "\<forall>kvs \<in> set kvss. length kvs = n"
    and "all_types_same (map snd params) TYPES"
    and "\<forall>i < n. all_types_same (values_at kvss i) TYPES"
    and "\<forall>i < n. fun_call fn params (values_at kvss i) = Inr (f (values_at kvss i))"
  shows "to_vectorize_multi_param h fn (map PDict kvss) params =
    (map (\<lambda>i. Call params (values_at kvss i)) [0..<n],
     Inr (dict_of_pairs h (map (\<lambda>i. (synth_key h fn (keys_at kvss i), f (values_at kvss i)))
                             [0..<n])))"
proof -
  have "for_each (\<lambda>i. bind (if all_types_same (values_at kvss i) TYPES
                                   then invoke fn params (values_at kvss i)
                                 else to_vectorize_multi_param h fn (values_at kvss i) params)
                            (\<lambda>r. ret (synth_key h fn (keys_at kvss i), r))) [0..<n] =
        (concat (map (\<lambda>i. [Call params (values_at kvss i)]) [0..<n]),
         Inr (map (\<lambda>i. (synth_key h fn (keys_at kvss i), f (values_at kvss i))) [0..<n]))"
    using assms(4,5) by (intro for_each_success) (simp add: invoke_def ret_def)
  then show ?thesis
    unfolding to_vectorize_multi_param_dicts_nonempty[OF assms(1,2,3), of h fn]
    by (simp add: ret_def concat_singletons)
qed

lemma sections_of_dicts:
  assumes "values_at (kvs0 # kvss) i = map PDict inner"
  shows "inner \<noteq> []" and "\<not> all_types_same (values_at (kvs0 # kvss) i) TYPES"
proof -
  have "length (values_at (kvs0 # kvss) i) = Suc (length kvss)"
    by (simp add: values_at_def)
  with assms show "inner \<noteq> []" by auto
  then obtain a as where "inner = a # as" by (cases inner) auto
  with assms show "\<not> all_types_same (values_at (kvs0 # kvss) i) TYPES"
    by (simp add: all_types_same_def)
qed

lemma multi_nested_dicts:
  assumes "\<forall>kvs \<in> set (kvs0 # kvss). length kvs = n"
    and "\<forall>i < n. values_at (kvs0 # kvss) i = map PDict (inner i)"
    and "\<forall>i < n. \<forall>kvs \<in> set (inner i). length kvs = m i"
    and "\<forall>i < n. \<forall>j < m i. all_types_same (values_at (inner i) j) TYPES"
    and "\<forall>i < n. \<forall>j < m i.
           fun_call fn [] (values_at (inner i) j) = Inr (f (values_at (inner i) j))"
  shows "to_vectorize_multi h fn (map PDict (kvs0 # kvss)) =
    (concat (map (\<lambda>i. map (\<lambda>j. Call [] (values_at (inner i) j)) [0..<m i]) [0..<n]),
     Inr (dict_of_pairs h (map (\<lambda>i.
            (synth_key h fn (keys_at (kvs0 # kvss) i),
             dict_of_pairs h (map (\<lambda>j. (synth_key h fn (keys_at (inner i) j),
                                          f (values_at (inner i) j))) [0..<m i])))
          [0..<n])))"
proof -
  have "for_each (\<lambda>i. bind (if all_types_same (values_at (kvs0 # kvss) i) TYPES
                                   then invoke fn [] (values_at (kvs0 # kvss) i)
                                 else to_vectorize_multi h fn (values_at (kvs0 # kvss) i))
                            (\<lambda>r. ret (synth_key h fn (keys_at (kvs0 # kvss) i), r))) [0..<n] =
        (concat (map (\<lambda>i. map (\<lambda>j. Call [] (values_at (inner i) j)) [0..<m i]) [0..<n]),
         Inr (map (\<lambda>i. (synth_key h fn (keys_at (kvs0 # kvss) i),
             dict_of_pairs h (map (\<lambda>j. (synth_key h fn (keys_at (inner i) j),
                                          f (values_at (inner i) j))) [0..<m i])))
          [0..<n]))"
  proof (rule for_each_success)
    fix i assume "i \<in> set [0..<n]"
    then have i: "i < n" by simp
    with assms(2) have v: "values_at (kvs0 # kvss) i = map PDict (inner i)" by simp
    note s = sections_of_dicts[OF v]
    have "to_vectorize_multi h fn (map PDict (inner i)) =
      (map (\<lambda>j. Call [] (values_at (inner i) j)) [0..<m i],
       Inr (dict_of_pairs h (map (\<lambda>j. (synth_key h fn (keys_at (inner i) j),
                                        f (values_at (inner i) j))) [0..<m i])))"
      using s(1) assms(3,4,5) i by (intro multi_leaf_dicts) auto
    with s(2) show "bind (if all_types_same (values_at (kvs0 # kvss) i) TYPES
                                   then invoke fn [] (values_at (kvs0 # kvss) i)
                                 else to_vectorize_multi h fn (values_at (kvs0 # kvss) i))
                            (\<lambda>r. ret (synth_key h fn (keys_at (kvs0 # kvss) i), r)) =
       (map (\<lambda>j. Call [] (values_at (inner i) j)) [0..<m i],
        Inr (synth_key h fn (keys_at (kvs0 # kvss) i),
             dict_of_pairs h (map (\<lambda>j. (synth_key h fn (keys_at (inner i) j),
                                          f (values_at (inner i) j))) [0..<m i])))"
      by (simp add: v ret_def)
  qed
  then show ?thesis
    unfolding to_vectorize_multi_dicts[OF assms(1), of h fn]
    by (simp add: ret_def)
qed

lemma multi_param_nested_dicts:
  assumes "\<forall>kvs \<in> set (kvs0 # kvss). length kvs = n"
    and "all_types_same (map snd params) TYPES"
    and "\<forall>i < n. values_at (kvs0 # kvss) i = map PDict (inner i)"
    and "\<forall>i < n. \<forall>kvs \<in> set (inner i). length kvs = m i"
    and "\<forall>i < n. \<forall>j < m i. all_types_same (values_at (inner i) j) TYPES"
    and "\<forall>i < n. \<forall>j < m i.
           fun_call fn params (values_at (inner i) j) = Inr (f (values_at (inner i) j))"
  shows "to_vectorize_multi_param h fn (map PDict (kvs0 # kvss)) params =
    (concat (map (\<lambda>i. map (\<lambda>j. Call params (values_at (inner i) j)) [0..<m i]) [0..<n]),
     Inr (dict_of_pairs h (map (\<lambda>i.
            (synth_key h fn (keys_at (kvs0 # kvss) i),
             dict_of_pairs h (map (\<lambda>j. (synth_key h fn (keys_at (inner i) j),
                                          f (values_at (inner i) j))) [0..<m i])))
          [0..<n])))"
proof -
  have "for_each (\<lambda>i. bind (if all_types_same (values_at (kvs0 # kvss) i) TYPES
                                   then invoke fn params (values_at (kvs0 # kvss) i)
                                 else to_vectorize_multi_param h fn (values_at (kvs0 # kvss) i) params)
                            (\<lambda>r. ret (synth_key h fn (keys_at (kvs0 # kvss) i), r))) [0..<n] =
        (concat (map (\<lambda>i. map (\<lambda>j. Call params (values_at (inner i) j)) [0..<m i]) [0..<n]),
         Inr (map (\<lambda>i. (synth_key h fn (keys_at (kvs0 # kvss) i),
             dict_of_pairs h (map (\<lambda>j. (synth_key h fn (keys_at (inner i) j),
                                          f (values_at (inner i) j))) [0..<m i])))
          [0..<n]))"
  proof (rule for_each_success)
    fix i assume "i \<in> set [0..<n]"
    then have i: "i < n" by simp
    with assms(3) have v: "values_at (kvs0 # kvss) i = map PDict (inner i)" by simp
    note s = sections_of_dicts[OF v]
    have "to_vectorize_multi_param h fn (map PDict (inner i)) params =
      (map (\<lambda>j. Call params (values_at (inner i) j)) [0..<m i],
       Inr (dict_of_pairs h (map (\<lambda>j. (synth_key h fn (keys_at (inner i) j),
                                        f (values_at (inner i) j))) [0..<m i])))"
      using s(1) assms(2,4,5,6) i by (intro multi_param_leaf_dicts) auto
    with s(2) show "bind (if all_types_same (values_at (kvs0 # kvss) i) TYPES
                                   then invoke fn params (values_at (kvs0 # kvss) i)
                                 else to_vectorize_multi_param h fn (values_at (kvs0 # kvss) i) params)
                            (\<lambda>r. ret (synth_key h fn (keys_at (kvs0 # kvss) i), r)) =
       (map (\<lambda>j. Call params (values_at (inner i) j)) [0..<m i],
        Inr (synth_key h fn (keys_at (kvs0 # kvss) i),
             dict_of_pairs h (map (\<lambda>j. (synth_key h fn (keys_at (inner i) j),
                                          f (values_at (inner i) j))) [0..<m i])))"
      by (simp add: v ret_def)
  qed
  then show ?thesis
    unfolding to_vectorize_multi_param_dicts[OF assms(1,2), of h fn]
    by (simp add: ret_def)
qed

text \<open>A dictionary built from at least one assignment of a mapping has two levels.\<close>

lemma dict_set_values:
  "dict_set h d k v \<noteq> [] \<and> snd ` set (dict_set h d k v) \<subseteq> snd ` set d \<union> {v}"
proof (induction d)
  case Nil
  show ?case by simp
next
  case (Cons e d)
  obtain k' v' where e: "e = (k', v')" by (cases e)
  show ?case
  proof (cases "same_member h k' k")
    case True
    then show ?thesis unfolding e by auto
  next
    case False
    with Cons show ?thesis unfolding e by auto
  qed
qed

lemma foldl_dict_set_values:
  "snd ` set (foldl (\<lambda>d kv. dict_set h d (fst kv) (snd kv)) d kvs) \<subseteq>
     snd ` set d \<union> snd ` set kvs \<and>
   (d \<noteq> [] \<or> kvs \<noteq> [] \<longrightarrow> foldl (\<lambda>d kv. dict_set h d (fst kv) (snd kv)) d kvs \<noteq> [])"
proof (induction kvs arbitrary: d)
  case Nil
  show ?case by simp
next
  case (Cons kv kvs)
  let ?d = "dict_set h d (fst kv) (snd kv)"
  let ?r = "foldl (\<lambda>d kv. dict_set h d (fst kv) (snd kv)) ?d kvs"
  from Cons.IH[of ?d]
  have 1: "snd ` set ?r \<subseteq> snd ` set ?d \<union> snd ` set kvs" and 2: "?d \<noteq> [] \<longrightarrow> ?r \<noteq> []"
    by simp_all
  from dict_set_values[of h d "fst kv" "snd kv"]
  have 3: "?d \<noteq> []" and 4: "snd ` set ?d \<subseteq> snd ` set d \<union> {snd kv}" by simp_all
  from 1 4 have "snd ` set ?r \<subseteq> snd ` set d \<union> snd ` set (kv # kvs)" by auto
  moreover from 2 3 have "?r \<noteq> []" by simp
  ultimately show ?case by simp
qed

lemma foldr_max_ge: "x \<in> set xs \<Longrightarrow> x \<le> foldr max xs (0::nat)"
  by (induction xs) (auto simp: max_def)

lemma dict_of_dicts_depth:
  assumes "kvs \<noteq> []" and "\<forall>kv \<in> set kvs. 1 \<le> mapping_depth (snd kv)"
  shows "2 \<le> mapping_depth (dict_of_pairs h kvs)"
proof -
  let ?d = "foldl (\<lambda>d kv. dict_set h d (fst kv) (snd kv)) [] kvs"
  from foldl_dict_set_values[of h "[]" kvs] assms(1)
  have sub: "snd ` set ?d \<subseteq> snd ` set kvs" and ne: "?d \<noteq> []" by auto
  from ne obtain e where e: "e \<in> set ?d" by (cases ?d) auto
  with sub have "snd e \<in> snd ` set kvs" by auto
  with assms(2) have "1 \<le> mapping_depth (snd e)" by auto
  moreover from e have "mapping_depth (snd e) \<le> foldr max (map (\<lambda>kv. mapping_depth (snd kv)) ?d) 0"
    by (intro foldr_max_ge) auto
  ultimately show ?thesis
    by (simp add: dict_of_pairs_def)
qed

lemma mapping_depth_dict_of_pairs: "Suc 0 \<le> mapping_depth (dict_of_pairs h kvs)"
  by (simp add: dict_of_pairs_def)

text \<open>
  Claim C3, as the spec states it, fails: on mappings whose values are mappings the zip
  recurses and stores the mapping it gets. \<^verbatim>\<open>zip(add, {a: {x: 1}}, {a: {x: 10}})\<close> is
  \<^verbatim>\<open>{"add['a', 'a']": {"add['x', 'x']": 11}}\<close>, a mapping two levels deep.
\<close>

theorem zip_of_nested_mappings_is_nested:
  "snd (vectorize_multi example_host add
     [PDict [(PStr ''a'', PDict [(PStr ''x'', PInt 1)])],
      PDict [(PStr ''a'', PDict [(PStr ''x'', PInt 10)])]]) =
   Inr (PDict [(PStr ''add['a', 'a']'', PDict [(PStr ''add['x', 'x']'', PInt 11)])]) \<and>
   mapping_depth (PDict [(PStr ''add['a', 'a']'', PDict [(PStr ''add['x', 'x']'', PInt 11)])]) = 2"
proof -
  let ?a = "[(PStr ''a'', PDict [(PStr ''x'', PInt 1)])]"
  let ?b = "[(PStr ''a'', PDict [(PStr ''x'', PInt 10)])]"
  let ?c = "[(PStr ''x'', PInt 1)]"
  let ?d = "[(PStr ''x'', PInt 10)]"
  have 1: "\<forall>kvs \<in> set [?a, ?b]. length kvs = 1" by simp
  have 2: "\<forall>kvs \<in> set [?c, ?d]. length kvs = 1" by simp
  have inner: "to_vectorize_multi example_host add (map PDict [?c, ?d]) =
     ([Call [] [PInt 1, PInt 10]], Inr (PDict [(PStr ''add['x', 'x']'', PInt 11)]))"
    unfolding to_vectorize_multi_dicts[OF 2]
    by (simp add: values_at_def keys_at_def all_types_same_def invoke_def ret_def add_simps
        synth_key_def dict_of_pairs_def repr_examples del: py_repr.simps)
  have "to_vectorize_multi example_host add (map PDict [?a, ?b]) =
     ([Call [] [PInt 1, PInt 10]],
      Inr (PDict [(PStr ''add['a', 'a']'', PDict [(PStr ''add['x', 'x']'', PInt 11)])]))"
    unfolding to_vectorize_multi_dicts[OF 1]
    using inner
    by (simp add: values_at_def keys_at_def all_types_same_def ret_def add_simps
        synth_key_def dict_of_pairs_def repr_examples del: py_repr.simps)
  then show ?thesis
    by (simp add: vectorize_multi_def)
qed

text \<open>
  Claim C3, amended. The zip reproduces one level of nesting of mapping inputs. Take
  \<open>N \<ge> 1\<close> mappings with \<open>n\<close> entries each, under any keys, such that at every position
  \<open>i\<close> the \<open>N\<close> values are mappings with \<open>m i\<close> entries each, under any keys, whose values
  at every position \<open>j\<close> are leaves, and a leaf function that returns on the \<open>N\<close> leaves of
  every such position. Then \<^verbatim>\<open>zip\<close>, and \<^verbatim>\<open>zip_with_params\<close> with leaf parameters, call
  the function once for every \<open>i\<close> and \<open>j\<close>, in order, and return the mapping built by
  assigning, for every \<open>i\<close> in order, under the key
  \<^verbatim>\<open>functionName + str([key of input 1, ..., key of input N at i])\<close>, the mapping built by
  assigning, for every \<open>j\<close> in order, the result of the function under the key synthesized
  from the inner keys at \<open>j\<close>. When \<open>n > 0\<close> the result is a mapping of mappings, not a flat
  one. The text of a key that is not an integer, a boolean, \<^verbatim>\<open>None\<close>, bytes or an ASCII
  string is the one its class gives (\<open>repr_of\<close> of the host).
\<close>

theorem zip_reproduces_nested_mappings:
  assumes "\<forall>kvs \<in> set (kvs0 # kvss). length kvs = n"
    and "all_types_same (map snd params) TYPES"
    and "\<forall>i < n. values_at (kvs0 # kvss) i = map PDict (inner i)"
    and "\<forall>i < n. \<forall>kvs \<in> set (inner i). length kvs = m i"
    and "\<forall>i < n. \<forall>j < m i. all_types_same (values_at (inner i) j) TYPES"
    and "\<forall>i < n. \<forall>j < m i.
           fun_call fn [] (values_at (inner i) j) = Inr (f (values_at (inner i) j))"
    and "\<forall>i < n. \<forall>j < m i.
           fun_call fn params (values_at (inner i) j) = Inr (g (values_at (inner i) j))"
  shows "vectorize_multi h fn (map PDict (kvs0 # kvss)) =
    (concat (map (\<lambda>i. map (\<lambda>j. Call [] (values_at (inner i) j)) [0..<m i]) [0..<n]),
     Inr (dict_of_pairs h (map (\<lambda>i.
            (synth_key h fn (keys_at (kvs0 # kvss) i),
             dict_of_pairs h (map (\<lambda>j. (synth_key h fn (keys_at (inner i) j),
                                          f (values_at (inner i) j))) [0..<m i])))
          [0..<n]))) \<and>
   vectorize_multi_param h fn (map PDict (kvs0 # kvss)) params =
    (concat (map (\<lambda>i. map (\<lambda>j. Call params (values_at (inner i) j)) [0..<m i]) [0..<n]),
     Inr (dict_of_pairs h (map (\<lambda>i.
            (synth_key h fn (keys_at (kvs0 # kvss) i),
             dict_of_pairs h (map (\<lambda>j. (synth_key h fn (keys_at (inner i) j),
                                          g (values_at (inner i) j))) [0..<m i])))
          [0..<n]))) \<and>
   (0 < n \<longrightarrow>
      (\<exists>out. snd (vectorize_multi h fn (map PDict (kvs0 # kvss))) = Inr out \<and>
             2 \<le> mapping_depth out) \<and>
      (\<exists>out. snd (vectorize_multi_param h fn (map PDict (kvs0 # kvss)) params) = Inr out \<and>
             2 \<le> mapping_depth out))"
proof -
  note a = multi_nested_dicts[OF assms(1,3,4,5,6), of h]
  note b = multi_param_nested_dicts[OF assms(1,2,3,4,5,7), of h]
  have depth: "2 \<le> mapping_depth (dict_of_pairs h (map (\<lambda>i.
            (synth_key h fn (keys_at (kvs0 # kvss) i), dict_of_pairs h (x i))) [0..<n]))"
    if "0 < n" for x
    using that by (intro dict_of_dicts_depth) (auto simp: mapping_depth_dict_of_pairs)
  show ?thesis
    unfolding vectorize_multi_def vectorize_multi_param_def a b
    using depth by simp
qed

text \<open>The theorem at
  \<^verbatim>\<open>zip(add, {a: {x: 1, y: 2}, b: {z: 3}}, {a: {x: 10, y: 20}, b: {w: 30}})\<close>, which is
  \<^verbatim>\<open>{"add['a', 'a']": {"add['x', 'x']": 11, "add['y', 'y']": 22}, "add['b', 'b']": {"add['z', 'w']": 33}}\<close>
  after three calls.\<close>

theorem zip_reproduces_nested_mappings_witness:
  "vectorize_multi example_host add
     [PDict [(PStr ''a'', PDict [(PStr ''x'', PInt 1), (PStr ''y'', PInt 2)]),
             (PStr ''b'', PDict [(PStr ''z'', PInt 3)])],
      PDict [(PStr ''a'', PDict [(PStr ''x'', PInt 10), (PStr ''y'', PInt 20)]),
             (PStr ''b'', PDict [(PStr ''w'', PInt 30)])]] =
   ([Call [] [PInt 1, PInt 10], Call [] [PInt 2, PInt 20], Call [] [PInt 3, PInt 30]],
    Inr (PDict [(PStr ''add['a', 'a']'',
                 PDict [(PStr ''add['x', 'x']'', PInt 11), (PStr ''add['y', 'y']'', PInt 22)]),
                (PStr ''add['b', 'b']'', PDict [(PStr ''add['z', 'w']'', PInt 33)])])) \<and>
   vectorize_multi_param example_host add
     [PDict [(PStr ''a'', PDict [(PStr ''x'', PInt 1), (PStr ''y'', PInt 2)]),
             (PStr ''b'', PDict [(PStr ''z'', PInt 3)])],
      PDict [(PStr ''a'', PDict [(PStr ''x'', PInt 10), (PStr ''y'', PInt 20)]),
             (PStr ''b'', PDict [(PStr ''w'', PInt 30)])]] [] =
   ([Call [] [PInt 1, PInt 10], Call [] [PInt 2, PInt 20], Call [] [PInt 3, PInt 30]],
    Inr (PDict [(PStr ''add['a', 'a']'',
                 PDict [(PStr ''add['x', 'x']'', PInt 11), (PStr ''add['y', 'y']'', PInt 22)]),
                (PStr ''add['b', 'b']'', PDict [(PStr ''add['z', 'w']'', PInt 33)])])) \<and>
   mapping_depth
     (PDict [(PStr ''add['a', 'a']'',
              PDict [(PStr ''add['x', 'x']'', PInt 11), (PStr ''add['y', 'y']'', PInt 22)]),
             (PStr ''add['b', 'b']'', PDict [(PStr ''add['z', 'w']'', PInt 33)])]) = 2"
proof -
  let ?ax = "[(PStr ''x'', PInt 1), (PStr ''y'', PInt 2)]"
  let ?ay = "[(PStr ''z'', PInt 3)]"
  let ?bx = "[(PStr ''x'', PInt 10), (PStr ''y'', PInt 20)]"
  let ?by = "[(PStr ''w'', PInt 30)]"
  let ?a = "[(PStr ''a'', PDict ?ax), (PStr ''b'', PDict ?ay)]"
  let ?b = "[(PStr ''a'', PDict ?bx), (PStr ''b'', PDict ?by)]"
  let ?inner = "\<lambda>i::nat. if i = 0 then [?ax, ?bx] else [?ay, ?by]"
  let ?m = "\<lambda>i::nat. if i = 0 then 2 else (1::nat)"
  have u: "[0..<2] = [0, Suc 0]" "[0..<Suc 0] = [0]" by (simp_all add: upt_rec)
  have k: "keys_at [?a, ?b] 0 = [PStr ''a'', PStr ''a'']"
    "keys_at [?a, ?b] (Suc 0) = [PStr ''b'', PStr ''b'']"
    "keys_at [?ax, ?bx] 0 = [PStr ''x'', PStr ''x'']"
    "keys_at [?ax, ?bx] (Suc 0) = [PStr ''y'', PStr ''y'']"
    "keys_at [?ay, ?by] 0 = [PStr ''z'', PStr ''w'']"
    by (simp_all add: keys_at_def)
  have v: "values_at [?a, ?b] 0 = map PDict [?ax, ?bx]"
    "values_at [?a, ?b] (Suc 0) = map PDict [?ay, ?by]"
    "values_at [?ax, ?bx] 0 = [PInt 1, PInt 10]"
    "values_at [?ax, ?bx] (Suc 0) = [PInt 2, PInt 20]"
    "values_at [?ay, ?by] 0 = [PInt 3, PInt 30]"
    by (simp_all add: values_at_def)
  have 1: "\<forall>kvs \<in> set (?a # [?b]). length kvs = 2" by simp
  have 2: "all_types_same (map snd ([] :: kwargs)) TYPES" by (simp add: all_types_same_def)
  have 3: "\<forall>i < 2. values_at (?a # [?b]) i = map PDict (?inner i)"
    by (simp add: less_2_cases_iff v)
  have 4: "\<forall>i < 2. \<forall>kvs \<in> set (?inner i). length kvs = ?m i"
    by (simp add: less_2_cases_iff)
  have 5: "\<forall>i < 2. \<forall>j < ?m i. all_types_same (values_at (?inner i) j) TYPES"
    by (simp add: less_2_cases_iff v all_types_same_def)
  have 6: "\<forall>i < 2. \<forall>j < ?m i.
      fun_call add [] (values_at (?inner i) j) = Inr (add_result (values_at (?inner i) j))"
    by (simp add: less_2_cases_iff v add_simps add_result_def)
  show ?thesis
    using zip_reproduces_nested_mappings [OF 1 2 3 4 5 6 6, of example_host]
    by (simp add: u v k add_result_def add_simps synth_key_def repr_examples dict_of_pairs_def
        same_member_def py_eq_def del: py_repr.simps)
qed

subsection \<open>Recursion depth\<close>

lemma list_depth_nest_list: "list_depth (nest_list n v) = n + list_depth v"
  by (induction n) simp_all

lemma to_vectorize_no_Exception:
  "is_Exception e \<Longrightarrow> snd (to_vectorize h fn obj) \<noteq> Inl e"
  by (subst to_vectorize.simps) (rule logger_catch_no_Exception)

text \<open>
  The definitions follow the control flow of the source and give every call the stack
  it needs. The interpreter bounds the stack: on an input nested some hundreds of
  levels CPython raises \<^verbatim>\<open>RecursionError\<close>, an \<^verbatim>\<open>Exception\<close>, inside a call, a logger
  wrapper catches it, and the result holds \<^verbatim>\<open>None\<close> at that level. The statements of
  this section therefore give a complete result only at a shallow, concrete input; what
  they say at every depth is that no exception leaves the call.
\<close>

text \<open>
  Claim C6, as the spec states it, fails: the engine has no depth setting and no
  \<^verbatim>\<open>DepthExceededError\<close>. The list nested 400 levels around \<open>1\<close> does not make
  \<^verbatim>\<open>map(lambda x: 0, ...)\<close> fail with \<^verbatim>\<open>DepthExceededError\<close>, and the list nested 3 levels
  around \<open>1\<close> is mapped, with one call, to the list nested 3 levels around \<open>0\<close>.
\<close>

theorem deep_list_is_not_refused:
  "list_depth (nest_list 400 (PInt 1)) = 400 \<and>
   snd (vectorize example_host zero_fn (nest_list 400 (PInt 1))) \<noteq>
     Inl (UserException ''DepthExceededError'') \<and>
   list_depth (PList [PList [PList [PInt 1]]]) = 3 \<and>
   vectorize example_host zero_fn (PList [PList [PList [PInt 1]]]) =
     ([Call [] [PInt 1]], Inr (PList [PList [PList [PInt 0]]]))"
proof -
  have 1: "list_depth (nest_list 400 (PInt 1)) = 400"
    by (simp add: list_depth_nest_list)
  have 2: "snd (vectorize example_host zero_fn (nest_list 400 (PInt 1))) \<noteq>
     Inl (UserException ''DepthExceededError'')"
    unfolding vectorize_def by (rule to_vectorize_no_Exception) simp
  have 3: "list_depth (PList [PList [PList [PInt 1]]]) = 3" by simp
  have 4: "vectorize example_host zero_fn (PList [PList [PList [PInt 1]]]) =
     ([Call [] [PInt 1]], Inr (PList [PList [PList [PInt 0]]]))"
    by (simp add: vectorize_def to_vectorize_List invoke_def ret_def zero_fn_def)
  from 1 2 3 4 show ?thesis by blast
qed

text \<open>
  Claim C6, amended. The single-input map has no maximum depth and never fails with
  \<^verbatim>\<open>DepthExceededError\<close>: for every maximum depth there is a structure nested deeper,
  the list nested one level more around any value, on which \<^verbatim>\<open>map\<close> does not fail with
  an exception of the \<^verbatim>\<open>Exception\<close> hierarchy, whatever its name; indeed it fails with
  none on any input, because every call runs under the logger wrapper.
\<close>

theorem map_has_no_depth_error:
  assumes "is_Exception e"
  shows "max_depth < list_depth (nest_list (Suc max_depth) v) \<and>
         snd (vectorize h fn (nest_list (Suc max_depth) v)) \<noteq> Inl e \<and>
         snd (vectorize h fn obj) \<noteq> Inl e"
  using assms
  by (simp add: vectorize_def to_vectorize_no_Exception list_depth_nest_list
      del: nest_list.simps)

text \<open>The theorem at \<^verbatim>\<open>DepthExceededError\<close>, the maximum depth 399 and the list nested 400
  levels around \<open>1\<close>.\<close>

theorem map_has_no_depth_error_witness:
  "is_Exception (UserException ''DepthExceededError'') \<and>
   399 < list_depth (nest_list 400 (PInt 1)) \<and>
   snd (vectorize example_host zero_fn (nest_list 400 (PInt 1))) \<noteq>
     Inl (UserException ''DepthExceededError'') \<and>
   snd (vectorize example_host zero_fn (PList [PInt 1])) \<noteq>
     Inl (UserException ''DepthExceededError'')"
proof -
  have e: "is_Exception (UserException ''DepthExceededError'')" by simp
  have n: "Suc 399 = (400::nat)" by simp
  show ?thesis
    using e map_has_no_depth_error [OF e, of 399 "PInt 1" example_host zero_fn "PList [PInt 1]"]
    unfolding n by blast
qed

end
